theory Spec2Isabelle
  imports Complex_Main
begin

section \<open>JavaScript values that reach the database-retry utilities\<close>

text \<open>
  A thrown or rejected value is any JavaScript value. The retry code only asks of it
  whether it is an \<open>Error\<close> instance, and, if so, reads its \<open>code\<close>, \<open>message\<close> and
  \<open>cause\<close> properties. Error objects live in a store, so that the cause graph may be
  shared or cyclic, which is the situation the depth bound of the source guards against.
  A value that is not an \<open>Error\<close> carries its truthiness, the only thing
  \<open>if (cause)\<close> observes of it.
\<close>

type_synonym addr = nat

datatype js_value =
    NonError bool
  | ErrorRef addr

record error_obj =
  code :: "string option"
  message :: string
  cause :: js_value

type_synonym heap = "addr \<Rightarrow> error_obj"

fun truthy :: "js_value \<Rightarrow> bool" where
  "truthy (NonError b) = b"
| "truthy (ErrorRef a) = True"

subsection \<open>String.prototype.startsWith and String.prototype.includes\<close>

fun startsWith :: "string \<Rightarrow> string \<Rightarrow> bool" where
  "startsWith s [] = True"
| "startsWith [] (p # ps) = False"
| "startsWith (c # cs) (p # ps) = (c = p \<and> startsWith cs ps)"

fun includes_str :: "string \<Rightarrow> string \<Rightarrow> bool" where
  "includes_str [] p = (p = [])"
| "includes_str (c # cs) p = (startsWith (c # cs) p \<or> includes_str cs p)"

section \<open>Transient database errors\<close>

definition MAX_RETRIES :: int where
  "MAX_RETRIES = 3"

definition TRANSIENT_PG_CODES :: "string list" where
  "TRANSIENT_PG_CODES =
     [''08000'', ''08001'', ''08003'', ''08004'', ''08006'', ''57P01'', ''57P02'', ''57P03'']"

definition TRANSIENT_ERROR_PATTERNS :: "string list" where
  "TRANSIENT_ERROR_PATTERNS =
     [''ECONNREFUSED'', ''ECONNRESET'', ''EPIPE'', ''ETIMEDOUT'',
      ''Connection terminated'', ''timeout expired'']"

definition MAX_CAUSE_DEPTH :: nat where
  "MAX_CAUSE_DEPTH = 5"

text \<open>
  \<open>pgCode && TRANSIENT_PG_CODES.has(pgCode)\<close>: an absent code and the empty string are
  falsy.
\<close>

definition has_transient_code :: "error_obj \<Rightarrow> bool" where
  "has_transient_code e =
     (case code e of
        None \<Rightarrow> False
      | Some c \<Rightarrow> c \<noteq> [] \<and> c \<in> set TRANSIENT_PG_CODES)"

text \<open>\<open>TRANSIENT_ERROR_PATTERNS.some((pattern) => message.includes(pattern))\<close>\<close>

definition has_transient_message :: "error_obj \<Rightarrow> bool" where
  "has_transient_message e = list_ex (\<lambda>pattern. includes_str (message e) pattern) TRANSIENT_ERROR_PATTERNS"

function isTransientDbError :: "heap \<Rightarrow> js_value \<Rightarrow> nat \<Rightarrow> bool" where
  "isTransientDbError h error depth =
     (case error of
        NonError _ \<Rightarrow> False
      | ErrorRef a \<Rightarrow>
          if depth > MAX_CAUSE_DEPTH then False
          else if has_transient_code (h a) then True
          else if has_transient_message (h a) then True
          else if truthy (cause (h a)) then isTransientDbError h (cause (h a)) (depth + 1)
          else False)"
  by pat_completeness auto
termination
  by (relation "measure (\<lambda>(h, error, depth). Suc MAX_CAUSE_DEPTH - depth)") auto

declare isTransientDbError.simps [simp del]

text \<open>
  The claim speaks of the cause chain of a value: the value itself, then the \<open>cause\<close> of
  each \<open>Error\<close> in turn. \<open>nth_cause h v k\<close> is the value \<open>k\<close> causes down the chain from
  \<open>v\<close>, if every value before it is an \<open>Error\<close>; \<open>carries_transient_marker\<close> is the
  claim's test on one \<open>Error\<close>, written with the claim's own sets and with containment
  as a statement about substrings.
\<close>

fun nth_cause :: "heap \<Rightarrow> js_value \<Rightarrow> nat \<Rightarrow> js_value option" where
  "nth_cause h v 0 = Some v"
| "nth_cause h v (Suc n) =
     (case v of NonError _ \<Rightarrow> None | ErrorRef a \<Rightarrow> nth_cause h (cause (h a)) n)"

definition carries_transient_marker :: "error_obj \<Rightarrow> bool" where
  "carries_transient_marker e \<longleftrightarrow>
     (\<exists>c. code e = Some c \<and>
        c \<in> {''08000'', ''08001'', ''08003'', ''08004'', ''08006'', ''57P01'', ''57P02'', ''57P03''})
     \<or> (\<exists>p xs ys. message e = xs @ p @ ys \<and>
        p \<in> {''ECONNREFUSED'', ''ECONNRESET'', ''EPIPE'', ''ETIMEDOUT'',
             ''Connection terminated'', ''timeout expired''})"

text \<open>
  Stores used to run the code: a chain in which the error at each address has the error
  at the next address as its cause and only the one at address 6 is a connection failure
  (code 08006), and a store in which every error is its own cause.
\<close>

definition chain_heap :: heap where
  "chain_heap = (\<lambda>n. \<lparr>code = (if n = 6 then Some ''08006'' else None),
                         message = ''query failed'', cause = ErrorRef (n + 1)\<rparr>)"

definition cyclic_heap :: heap where
  "cyclic_heap = (\<lambda>n. \<lparr>code = None, message = ''wrapped'', cause = ErrorRef n\<rparr>)"

text \<open>The test the source makes on one \<open>Error\<close> object, before it follows the cause.\<close>

definition transient_here :: "error_obj \<Rightarrow> bool" where
  "transient_here e = (has_transient_code e \<or> has_transient_message e)"

section \<open>Retrying a database call\<close>

text \<open>
  \<open>fn\<close> is an asynchronous function with effects of its own: an invocation takes the
  state of the world it runs in and settles, fulfilled with a value or rejected with a
  thrown value, leaving a new state. \<open>withDbRetry\<close> is modelled with the state threaded
  through the loop and a counter of the invocations of \<open>fn\<close> it has made. The delay of
  \<open>calculateBackoff\<close> and the log line between two attempts change neither.

  \<open>maxRetries\<close> is a JavaScript number; the model takes it over the integers, so that a
  negative budget is an input too. Then the loop body never runs and the final
  \<open>throw new Error("withDbRetry: unreachable")\<close> of the source is reached.
\<close>

datatype 'a settled = Fulfilled 'a | Rejected js_value

datatype 'a retry_result = Returned 'a | Rethrown js_value | ThrownUnreachable

function withDbRetry_loop ::
  "heap \<Rightarrow> ('s \<Rightarrow> 'a settled \<times> 's) \<Rightarrow> int \<Rightarrow> int \<Rightarrow> 's \<Rightarrow> nat \<Rightarrow> 'a retry_result \<times> 's \<times> nat"
where
  "withDbRetry_loop h fn maxRetries attempt s calls =
     (if attempt \<le> maxRetries then
        (case fn s of
           (Fulfilled v, s') \<Rightarrow> (Returned v, s', calls + 1)
         | (Rejected error, s') \<Rightarrow>
             if isTransientDbError h error 0 \<and> attempt < maxRetries
             then withDbRetry_loop h fn maxRetries (attempt + 1) s' (calls + 1)
             else (Rethrown error, s', calls + 1))
      else (ThrownUnreachable, s, calls))"
  by pat_completeness auto
termination
  by (relation "measure (\<lambda>(h, fn, maxRetries, attempt, s, calls). nat (maxRetries + 1 - attempt))")
    auto

declare withDbRetry_loop.simps [simp del]

text \<open>\<open>options?.maxRetries ?? MAX_RETRIES\<close>, then the loop from attempt 0.\<close>

definition withDbRetry ::
  "heap \<Rightarrow> ('s \<Rightarrow> 'a settled \<times> 's) \<Rightarrow> int option \<Rightarrow> 's \<Rightarrow> 'a retry_result \<times> 's \<times> nat"
where
  "withDbRetry h fn options s =
     withDbRetry_loop h fn (case options of None \<Rightarrow> MAX_RETRIES | Some m \<Rightarrow> m) 0 s 0"

text \<open>The state in which the invocation number \<open>k\<close> (counted from 0) of \<open>fn\<close> starts.\<close>

fun state_after :: "('s \<Rightarrow> 'a settled \<times> 's) \<Rightarrow> 's \<Rightarrow> nat \<Rightarrow> 's" where
  "state_after fn s 0 = s"
| "state_after fn s (Suc k) = state_after fn (snd (fn s)) k"

text \<open>
  A function to run the loop on: the world counts the invocations; invocation \<open>k\<close>
  rejects with the error object at address \<open>k\<close> while \<open>k < n\<close> and is fulfilled with
  \<open>k\<close> from then on.
\<close>

definition flaky :: "nat \<Rightarrow> nat \<Rightarrow> nat settled \<times> nat" where
  "flaky n k = (if k < n then (Rejected (ErrorRef k), Suc k) else (Fulfilled k, Suc k))"

text \<open>
  A store for it: every error has the code 08006 (connection failure), but the one at
  address 2, a unique-constraint violation (23505).
\<close>

definition flaky_heap :: heap where
  "flaky_heap = (\<lambda>n. \<lparr>code = (if n = 2 then Some ''23505'' else Some ''08006''),
                         message = ''query failed'', cause = NonError False\<rparr>)"

text \<open>An invocation of \<open>fn\<close> from state \<open>s\<close> rejects with a transient database error.\<close>

definition rejects_transient :: "heap \<Rightarrow> ('s \<Rightarrow> 'a settled \<times> 's) \<Rightarrow> 's \<Rightarrow> bool" where
  "rejects_transient h fn s =
     (case fst (fn s) of Rejected e \<Rightarrow> isTransientDbError h e 0 | Fulfilled _ \<Rightarrow> False)"

section \<open>Database tables and the model classes over them\<close>

text \<open>
  A table is the list of its rows, in the order in which an unordered \<open>SELECT\<close> returns
  them. A nullable column is an \<open>option\<close>; a comparison \<open>eq(column, value)\<close> in a
  \<open>WHERE\<close> clause holds for a row only if the column is not null and equals the value.
  A model method that writes takes the table and returns the table it leaves.
\<close>

subsection \<open>InteractionModel\<close>

text \<open>
  The columns of the interactions table that the model and its tests use. The role
  lives inside the JSON \<open>content\<close> column; the two flags are booleans that may be
  null.
\<close>

record interaction =
  interaction_id :: string
  chatId :: string
  content_role :: string
  trusted :: "bool option"
  blocked :: "bool option"

definition checkIfChatIsTrusted :: "interaction list \<Rightarrow> string \<Rightarrow> bool" where
  "checkIfChatIsTrusted interactionsTable c =
     (let untrustedInteractions =
        filter (\<lambda>r. chatId r = c \<and> trusted r = Some False) interactionsTable
      in length untrustedInteractions = 0)"

subsection \<open>SsoProviderModel\<close>

record sso_provider_row =
  sso_id :: string
  issuer :: string
  oidcConfig :: "string option"
  samlConfig :: "string option"
  userId :: "string option"
  providerId :: string
  organizationId :: "string option"
  domain :: string

text \<open>What \<open>findAllPublic\<close> selects: \<open>PublicSsoProvider\<close>.\<close>

record public_sso_provider =
  public_id :: string
  public_providerId :: string

text \<open>
  What the other methods return: the row with both configuration columns parsed.
  \<open>JSON.parse\<close> is a parameter of the model, a function from the stored text to a
  parsed value of some type \<open>'j\<close>, or to nothing when it throws a \<open>SyntaxError\<close>.
\<close>

record 'j sso_provider =
  sp_id :: string
  sp_issuer :: string
  sp_oidcConfig :: "'j option"
  sp_samlConfig :: "'j option"
  sp_userId :: "string option"
  sp_providerId :: string
  sp_organizationId :: "string option"
  sp_domain :: string

datatype model_error = SyntaxError | NoValuesToSet

text \<open>
  \<open>config ? JSON.parse(config) : undefined\<close>: null and the empty string are falsy and
  give \<open>undefined\<close>.
\<close>

definition parse_config :: "(string \<Rightarrow> 'j option) \<Rightarrow> string option \<Rightarrow> model_error + 'j option" where
  "parse_config JSON_parse config =
     (case config of
        None \<Rightarrow> Inr None
      | Some text \<Rightarrow>
          if text = [] then Inr None
          else (case JSON_parse text of None \<Rightarrow> Inl SyntaxError | Some j \<Rightarrow> Inr (Some j)))"

definition with_parsed_configs ::
  "(string \<Rightarrow> 'j option) \<Rightarrow> sso_provider_row \<Rightarrow> model_error + 'j sso_provider"
where
  "with_parsed_configs JSON_parse r =
     (case parse_config JSON_parse (oidcConfig r) of
        Inl e \<Rightarrow> Inl e
      | Inr oidc \<Rightarrow>
          (case parse_config JSON_parse (samlConfig r) of
             Inl e \<Rightarrow> Inl e
           | Inr saml \<Rightarrow>
               Inr \<lparr>sp_id = sso_id r, sp_issuer = issuer r, sp_oidcConfig = oidc,
                    sp_samlConfig = saml, sp_userId = userId r, sp_providerId = providerId r,
                    sp_organizationId = organizationId r, sp_domain = domain r\<rparr>))"

definition findAllPublic :: "sso_provider_row list \<Rightarrow> public_sso_provider list" where
  "findAllPublic ssoProvidersTable =
     map (\<lambda>r. \<lparr>public_id = sso_id r, public_providerId = providerId r\<rparr>) ssoProvidersTable"

text \<open>The \<open>WHERE\<close> clause shared by \<open>findById\<close>, \<open>update\<close> and \<open>delete\<close>.\<close>

definition id_and_org :: "string \<Rightarrow> string \<Rightarrow> sso_provider_row \<Rightarrow> bool" where
  "id_and_org i org r \<longleftrightarrow> sso_id r = i \<and> organizationId r = Some org"

definition findById ::
  "(string \<Rightarrow> 'j option) \<Rightarrow> string \<Rightarrow> string \<Rightarrow> sso_provider_row list \<Rightarrow>
     model_error + 'j sso_provider option"
where
  "findById JSON_parse i org ssoProvidersTable =
     (case filter (id_and_org i org) ssoProvidersTable of
        [] \<Rightarrow> Inr None
      | ssoProvider # _ \<Rightarrow>
          (case with_parsed_configs JSON_parse ssoProvider of
             Inl e \<Rightarrow> Inl e
           | Inr p \<Rightarrow> Inr (Some p)))"

text \<open>
  \<open>Partial<UpdateSsoProvider>\<close>: each column may be absent from the object passed to
  \<open>.set(data)\<close>; a column that is present is overwritten.
\<close>

record sso_provider_update =
  set_id :: "string option"
  set_issuer :: "string option"
  set_oidcConfig :: "string option option"
  set_samlConfig :: "string option option"
  set_userId :: "string option option"
  set_providerId :: "string option"
  set_organizationId :: "string option option"
  set_domain :: "string option"

text \<open>
  \<open>.set(data)\<close> of the query builder throws the error \<open>No values to set\<close> when
  the object has no column to set.
\<close>

definition nothing_to_set :: "sso_provider_update \<Rightarrow> bool" where
  "nothing_to_set d \<longleftrightarrow>
     set_id d = None \<and> set_issuer d = None \<and> set_oidcConfig d = None \<and>
     set_samlConfig d = None \<and> set_userId d = None \<and> set_providerId d = None \<and>
     set_organizationId d = None \<and> set_domain d = None"

definition or_keep :: "'a option \<Rightarrow> 'a \<Rightarrow> 'a" where
  "or_keep new old = (case new of None \<Rightarrow> old | Some v \<Rightarrow> v)"

definition apply_set :: "sso_provider_update \<Rightarrow> sso_provider_row \<Rightarrow> sso_provider_row" where
  "apply_set d r =
     \<lparr>sso_id = or_keep (set_id d) (sso_id r),
      issuer = or_keep (set_issuer d) (issuer r),
      oidcConfig = or_keep (set_oidcConfig d) (oidcConfig r),
      samlConfig = or_keep (set_samlConfig d) (samlConfig r),
      userId = or_keep (set_userId d) (userId r),
      providerId = or_keep (set_providerId d) (providerId r),
      organizationId = or_keep (set_organizationId d) (organizationId r),
      domain = or_keep (set_domain d) (domain r)\<rparr>"

text \<open>
  The methods \<open>update\<close> and \<open>delete\<close> of the class, here \<open>sso_update\<close> and
  \<open>sso_delete\<close>: both look the provider up with \<open>findById\<close> first and stop when it
  finds nothing.
\<close>

definition sso_update ::
  "(string \<Rightarrow> 'j option) \<Rightarrow> string \<Rightarrow> sso_provider_update \<Rightarrow> string \<Rightarrow> sso_provider_row list \<Rightarrow>
     (model_error + 'j sso_provider option) \<times> sso_provider_row list"
where
  "sso_update JSON_parse i d org ssoProvidersTable =
     (case findById JSON_parse i org ssoProvidersTable of
        Inl e \<Rightarrow> (Inl e, ssoProvidersTable)
      | Inr None \<Rightarrow> (Inr None, ssoProvidersTable)
      | Inr (Some existingProvider) \<Rightarrow>
          if nothing_to_set d then (Inl NoValuesToSet, ssoProvidersTable)
          else
            (let table' = map (\<lambda>r. if id_and_org i org r then apply_set d r else r) ssoProvidersTable;
                 returning = map (apply_set d) (filter (id_and_org i org) ssoProvidersTable)
             in case returning of
                  [] \<Rightarrow> (Inr None, table')
                | updatedProvider # _ \<Rightarrow>
                    (case with_parsed_configs JSON_parse updatedProvider of
                       Inl e \<Rightarrow> (Inl e, table')
                     | Inr p \<Rightarrow> (Inr (Some p), table'))))"

definition sso_delete ::
  "(string \<Rightarrow> 'j option) \<Rightarrow> string \<Rightarrow> string \<Rightarrow> sso_provider_row list \<Rightarrow>
     (model_error + bool) \<times> sso_provider_row list"
where
  "sso_delete JSON_parse i org ssoProvidersTable =
     (case findById JSON_parse i org ssoProvidersTable of
        Inl e \<Rightarrow> (Inl e, ssoProvidersTable)
      | Inr None \<Rightarrow> (Inr False, ssoProvidersTable)
      | Inr (Some existingProvider) \<Rightarrow>
          (let deleted = map sso_id (filter (id_and_org i org) ssoProvidersTable);
               table' = filter (\<lambda>r. \<not> id_and_org i org r) ssoProvidersTable
           in (Inr (length deleted > 0), table')))"

text \<open>Tables to run the models on.\<close>

definition okta_row :: sso_provider_row where
  "okta_row = \<lparr>sso_id = ''p1'', issuer = ''https://okta.example'',
                oidcConfig = Some ''{\"clientSecret\":\"s3cret\"}'', samlConfig = None,
                userId = Some ''u1'', providerId = ''okta'', organizationId = Some ''org-a'',
                domain = ''example.com''\<rparr>"

definition orphan_row :: sso_provider_row where
  "orphan_row = \<lparr>sso_id = ''p2'', issuer = ''https://idp.example'', oidcConfig = None,
                  samlConfig = Some ''<xml/>'', userId = None, providerId = ''saml'',
                  organizationId = None, domain = ''other.example''\<rparr>"

definition chat_rows :: "interaction list" where
  "chat_rows =
     [\<lparr>interaction_id = ''i1'', chatId = ''c1'', content_role = ''user'',
        trusted = Some True, blocked = Some False\<rparr>,
      \<lparr>interaction_id = ''i2'', chatId = ''c1'', content_role = ''tool'',
        trusted = Some False, blocked = Some True\<rparr>,
      \<lparr>interaction_id = ''i3'', chatId = ''c2'', content_role = ''assistant'',
        trusted = Some True, blocked = Some False\<rparr>]"

section \<open>Organization model and routes\<close>

text \<open>The organization table, with the columns of its schema.\<close>

record organization =
  org_id :: string
  org_name :: string
  slug :: string
  logo :: "string option"
  createdAt :: nat
  metadata :: "string option"
  limitCleanupInterval :: "string option"
  theme :: string
  customFont :: string

text \<open>
  A thrown value, as a \<open>catch\<close> block of the routes sees it: an \<open>Error\<close> with its
  message, or anything else.
\<close>

datatype thrown = ThrownError string | ThrownOther

text \<open>
  A reply of a route: the HTTP status with either the error envelope
  \<open>{ error: { message, type } }\<close> or the payload of the route.
\<close>

datatype 'a reply_body = ErrorEnvelope string string | Payload 'a

type_synonym 'a http_reply = "nat \<times> 'a reply_body"

text \<open>
  The body of \<open>PATCH /api/organization\<close>, \<open>UpdateOrganizationSchema.partial()\<close>: each
  key may be absent; \<open>logo\<close> and \<open>limitCleanupInterval\<close>, when present, may be null.
\<close>

record organization_patch =
  patch_theme :: "string option"
  patch_customFont :: "string option"
  patch_limitCleanupInterval :: "string option option"
  patch_logo :: "string option option"

definition PNG_PREFIX :: string where
  "PNG_PREFIX = ''data:image/png;base64,''"

text \<open>\<open>const maxSize = 2.66 * 1024 * 1024\<close>, a number that is not an integer.\<close>

definition maxSize :: real where
  "maxSize = 2.66 * 1024 * 1024"

definition set_organization :: "organization_patch \<Rightarrow> organization \<Rightarrow> organization" where
  "set_organization d r =
     r\<lparr>theme := or_keep (patch_theme d) (theme r),
       customFont := or_keep (patch_customFont d) (customFont r),
       limitCleanupInterval := or_keep (patch_limitCleanupInterval d) (limitCleanupInterval r),
       logo := or_keep (patch_logo d) (logo r)\<rparr>"

text \<open>
  The statement at the end of \<open>OrganizationModel.patch\<close>:
  \<open>db.update(organizationsTable).set(data).where(eq(organizationsTable.id, id)).returning()\<close>,
  of which the method returns the first row or null. \<open>.set(data)\<close> throws the error
  \<open>No values to set\<close> when the object has no column to set.
\<close>

definition no_values :: "organization_patch \<Rightarrow> bool" where
  "no_values d \<longleftrightarrow>
     patch_theme d = None \<and> patch_customFont d = None \<and>
     patch_limitCleanupInterval d = None \<and> patch_logo d = None"

definition update_organization ::
  "string \<Rightarrow> organization_patch \<Rightarrow> organization list \<Rightarrow>
     (thrown + organization option) \<times> organization list"
where
  "update_organization i d organizationsTable =
     (if no_values d then (Inl (ThrownError ''No values to set''), organizationsTable)
      else
        (let table' = map (\<lambda>r. if org_id r = i then set_organization d r else r) organizationsTable;
             returning = map (set_organization d) (filter (\<lambda>r. org_id r = i) organizationsTable)
         in case returning of
              [] \<Rightarrow> (Inr None, table')
            | updatedOrganization # _ \<Rightarrow> (Inr (Some updatedOrganization), table')))"

text \<open>
  \<open>OrganizationModel.patch\<close>. The guard \<open>"logo" in data && data.logo\<close> holds for a
  logo that is present, not null and not the empty string.
\<close>

definition organization_patch ::
  "string \<Rightarrow> organization_patch \<Rightarrow> organization list \<Rightarrow>
     (thrown + organization option) \<times> organization list"
where
  "organization_patch i d organizationsTable =
     (let validation =
        (case patch_logo d of
           Some (Some l) \<Rightarrow>
             if l \<noteq> [] then
               (if \<not> startsWith l PNG_PREFIX
                  then Some (ThrownError ''Logo must be a PNG image in base64 format'')
                else if real (length l) > maxSize
                  then Some (ThrownError ''Logo must be less than 2MB'')
                else None)
             else None
         | _ \<Rightarrow> None)
      in case validation of
           Some e \<Rightarrow> (Inl e, organizationsTable)
         | None \<Rightarrow> update_organization i d organizationsTable)"

text \<open>
  The handler of \<open>PATCH /api/organization\<close>: the whole body is inside \<open>try\<close>, and the
  \<open>catch\<close> block answers 500 with the message of the error.
\<close>

definition error_message :: "thrown \<Rightarrow> string" where
  "error_message e = (case e of ThrownError m \<Rightarrow> m | ThrownOther \<Rightarrow> ''Internal server error'')"

definition patch_organization_route ::
  "string \<Rightarrow> organization_patch \<Rightarrow> organization list \<Rightarrow> organization http_reply \<times> organization list"
where
  "patch_organization_route orgId body organizationsTable =
     (case organization_patch orgId body organizationsTable of
        (Inl error, table') \<Rightarrow> ((500, ErrorEnvelope (error_message error) ''api_error''), table')
      | (Inr None, table') \<Rightarrow> ((404, ErrorEnvelope ''Organization not found'' ''not_found''), table')
      | (Inr (Some organization), table') \<Rightarrow> ((200, Payload organization), table'))"

text \<open>
  \<open>getOrCreateDefaultOrganization\<close>: the first row of the table, or a new row with the
  fixed id, name and slug, the time of the call and the defaults of the schema.
\<close>

definition getOrCreateDefaultOrganization ::
  "nat \<Rightarrow> organization list \<Rightarrow> organization \<times> organization list"
where
  "getOrCreateDefaultOrganization now organizationsTable =
     (case organizationsTable of
        existingOrg # _ \<Rightarrow> (existingOrg, organizationsTable)
      | [] \<Rightarrow>
          (let createdOrg =
             \<lparr>org_id = ''default-org'', org_name = ''Default Organization'', slug = ''default'',
              logo = None, createdAt = now, metadata = None, limitCleanupInterval = Some ''1h'',
              theme = ''cosmic-night'', customFont = ''lato''\<rparr>
           in (createdOrg, organizationsTable @ [createdOrg])))"

text \<open>
  The handler of \<open>POST /api/organization/logo\<close>. Two functions it calls are not part
  of the sources at hand and are parameters of the model: the outcome of
  \<open>getUserFromRequest(request)\<close> (it throws, or returns null or a user), and
  \<open>OrganizationModel.updateAppearance\<close>, which takes the table, the id and the fields to
  set, and throws or returns the updated row or nothing, leaving a table.
\<close>

record request_user =
  user_id :: string
  isAdmin :: bool

record appearance_update =
  set_logo :: "string option"
  set_logoType :: string

record upload_reply =
  success :: bool
  reply_logo :: "string option"

text \<open>\<open>updatedOrg.logo || null\<close>: the empty string is falsy.\<close>

definition logo_or_null :: "string option \<Rightarrow> string option" where
  "logo_or_null l = (case l of None \<Rightarrow> None | Some s \<Rightarrow> if s = [] then None else Some s)"

definition upload_logo_route ::
  "(thrown + request_user option) \<Rightarrow>
   (organization list \<Rightarrow> string \<Rightarrow> appearance_update \<Rightarrow> (thrown + organization option) \<times> organization list) \<Rightarrow>
   nat \<Rightarrow> string \<Rightarrow> organization list \<Rightarrow> upload_reply http_reply \<times> organization list"
where
  "upload_logo_route getUserFromRequest updateAppearance now l organizationsTable =
     (case getUserFromRequest of
        Inl error \<Rightarrow> ((500, ErrorEnvelope (error_message error) ''api_error''), organizationsTable)
      | Inr None \<Rightarrow> ((401, ErrorEnvelope ''Unauthorized'' ''unauthorized''), organizationsTable)
      | Inr (Some user) \<Rightarrow>
          if \<not> isAdmin user then
            ((403, ErrorEnvelope ''Forbidden: Admin access required'' ''forbidden''), organizationsTable)
          else if \<not> startsWith l PNG_PREFIX then
            ((400, ErrorEnvelope ''Logo must be a PNG image in base64 format'' ''validation_error''),
             organizationsTable)
          else if real (length l) > maxSize then
            ((400, ErrorEnvelope ''Logo must be less than 2MB'' ''validation_error''),
             organizationsTable)
          else
            (case getOrCreateDefaultOrganization now organizationsTable of
               (organization, table1) \<Rightarrow>
                 (case updateAppearance table1 (org_id organization)
                         \<lparr>set_logo = Some l, set_logoType = ''custom''\<rparr> of
                    (Inl error, table2) \<Rightarrow>
                      ((500, ErrorEnvelope (error_message error) ''api_error''), table2)
                  | (Inr None, table2) \<Rightarrow>
                      ((500, ErrorEnvelope ''Failed to upload logo'' ''api_error''), table2)
                  | (Inr (Some updatedOrg), table2) \<Rightarrow>
                      ((200, Payload \<lparr>success = True, reply_logo = logo_or_null (logo updatedOrg)\<rparr>),
                       table2))))"

text \<open>
  What the statements about a stored logo ask of \<open>updateAppearance\<close>: it changes the
  rows with the given id and no other, keeps their id and sets their logo to the one
  given, whatever it does to their other columns, the logo type among them; and it
  returns the first of the rows it changed, or null when there is none.
\<close>

definition stores_appearance ::
  "(organization list \<Rightarrow> string \<Rightarrow> appearance_update \<Rightarrow>
      (thrown + organization option) \<times> organization list) \<Rightarrow> bool"
where
  "stores_appearance updateAppearance \<longleftrightarrow>
     (\<forall>t i u. \<exists>f.
        (\<forall>r. org_id (f r) = org_id r \<and> logo (f r) = set_logo u) \<and>
        updateAppearance t i u =
          (Inr (case filter (\<lambda>r. org_id r = i) t of [] \<Rightarrow> None | r # _ \<Rightarrow> Some (f r)),
           map (\<lambda>r. if org_id r = i then f r else r) t))"

text \<open>
  An \<open>updateAppearance\<close> to run the handler with: it sets the logo of the rows with the
  given id. The sources do not contain the method; this one only serves to evaluate the
  handler.
\<close>

definition store_logo ::
  "organization list \<Rightarrow> string \<Rightarrow> appearance_update \<Rightarrow> (thrown + organization option) \<times> organization list"
where
  "store_logo t i u =
     (let t' = map (\<lambda>r. if org_id r = i then r\<lparr>logo := set_logo u\<rparr> else r) t
      in (Inr (case filter (\<lambda>r. org_id r = i) t' of [] \<Rightarrow> None | r # _ \<Rightarrow> Some r), t'))"

definition acme :: organization where
  "acme = \<lparr>org_id = ''org-a'', org_name = ''Acme'', slug = ''acme'', logo = Some ''data:image/png;base64,AAAA'',
           createdAt = 0, metadata = None, limitCleanupInterval = Some ''1h'',
           theme = ''cosmic-night'', customFont = ''lato''\<rparr>"

definition admin :: request_user where
  "admin = \<lparr>user_id = ''u1'', isAdmin = True\<rparr>"

definition oversized_logo :: string where
  "oversized_logo = PNG_PREFIX @ replicate 2789191 (CHR ''A'')"

definition largest_logo :: string where
  "largest_logo = PNG_PREFIX @ replicate 2789190 (CHR ''A'')"

section \<open>A2A routes\<close>

text \<open>
  Both handlers look the prompt and its agent up, then check the bearer token. The
  functions they call are outside the sources at hand; the model takes their outcomes
  from an environment. An awaited call either throws or returns, and a lookup returns
  the row or null. \<open>extractBearerToken(request)\<close> returns the token or null.
\<close>

record prompt =
  prompt_id :: string
  agentId :: string
  prompt_name :: string
  systemPrompt :: "string option"
  userPrompt :: "string option"
  version :: nat

record agent =
  agent_id :: string
  agent_name :: string

record token_auth =
  auth_organizationId :: string
  auth_userId :: "string option"

record ('tools, 'model) a2a_env =
  PromptModel_findById :: "string \<Rightarrow> thrown + prompt option"
  AgentModel_findById :: "string \<Rightarrow> thrown + agent option"
  validateMCPGatewayToken :: "string \<Rightarrow> string \<Rightarrow> thrown + token_auth option"
  UserModel_getById :: "string \<Rightarrow> thrown + request_user option"
  getChatMcpTools :: "string \<Rightarrow> string \<Rightarrow> string \<Rightarrow> thrown + 'tools"
  createLLMModelForAgent :: "string \<Rightarrow> string \<Rightarrow> string \<Rightarrow> thrown + 'model"
  streamText :: "'model \<Rightarrow> string option \<Rightarrow> string \<Rightarrow> 'tools \<Rightarrow> thrown + string"
  fresh_messageId :: string

text \<open>A string is truthy when it is neither absent nor empty.\<close>

definition truthy_string :: "string option \<Rightarrow> bool" where
  "truthy_string s = (case s of None \<Rightarrow> False | Some t \<Rightarrow> t \<noteq> [])"

text \<open>\<open>a || b\<close> on strings that may be absent, with a last default.\<close>

definition or_else :: "string option \<Rightarrow> string \<Rightarrow> string" where
  "or_else s d = (case s of None \<Rightarrow> d | Some t \<Rightarrow> if t = [] then d else t)"

text \<open>\<open>Array.prototype.join\<close>.\<close>

fun join :: "string \<Rightarrow> string list \<Rightarrow> string" where
  "join sep [] = []"
| "join sep [x] = x"
| "join sep (x # y # ys) = x @ sep @ join sep (y # ys)"

subsection \<open>GET agent card\<close>

record agent_card =
  card_name :: string
  card_description :: string
  card_url :: string
  card_version :: nat
  skill_id :: string
  skill_name :: string
  skill_description :: string

text \<open>
  The handler ends by sending the card, by throwing an \<open>ApiError\<close> with a status code
  and a message, which the error handler of the server turns into the response of that
  status, or with the exception of a call it awaited. The card keeps the version as the
  number that the handler prints with \<open>String\<close>.
\<close>

datatype card_result =
    SendCard agent_card
  | ThrowApiError nat string
  | CardUnhandled thrown

record card_request =
  card_promptId :: string
  card_bearer :: "string option"
  x_forwarded_proto :: "string option"
  host :: "string option"

definition get_agent_card ::
  "string \<Rightarrow> ('tools, 'model) a2a_env \<Rightarrow> card_request \<Rightarrow> card_result"
where
  "get_agent_card endpoint env request =
     (case PromptModel_findById env (card_promptId request) of
        Inl e \<Rightarrow> CardUnhandled e
      | Inr None \<Rightarrow> ThrowApiError 404 ''Prompt not found''
      | Inr (Some p) \<Rightarrow>
          (case AgentModel_findById env (agentId p) of
             Inl e \<Rightarrow> CardUnhandled e
           | Inr None \<Rightarrow> ThrowApiError 404 ''Agent not found for prompt''
           | Inr (Some a) \<Rightarrow>
               if \<not> truthy_string (card_bearer request) then
                 ThrowApiError 401 ''Authorization header required. Use: Bearer <archestra_token>''
               else
                 (case validateMCPGatewayToken env (agent_id a) (the (card_bearer request)) of
                    Inl e \<Rightarrow> CardUnhandled e
                  | Inr None \<Rightarrow> ThrowApiError 401 ''Invalid or unauthorized token''
                  | Inr (Some tokenAuth) \<Rightarrow>
                      (let protocol = or_else (x_forwarded_proto request) ''http'';
                           h = or_else (host request) ''localhost:9000'';
                           baseUrl = protocol @ ''://'' @ h
                       in SendCard
                            \<lparr>card_name = prompt_name p,
                             card_description = or_else (systemPrompt p) (or_else (userPrompt p) ''''),
                             card_url = baseUrl @ endpoint @ ''/'' @ prompt_id p,
                             card_version = version p,
                             skill_id = prompt_id p @ ''-skill'',
                             skill_name = prompt_name p,
                             skill_description = or_else (userPrompt p) ''''\<rparr>))))"

subsection \<open>POST JSON-RPC execution\<close>

datatype rpc_id = IdString string | IdNumber int

record message_part =
  kind :: string
  part_text :: string

record a2a_message =
  parts :: "message_part list option"

record a2a_params =
  params_message :: "a2a_message option"

record rpc_request =
  request_id :: rpc_id
  rpc_method :: string
  params :: "a2a_params option"

record execute_request =
  exec_promptId :: string
  exec_bearer :: "string option"
  rpc_body :: rpc_request

record result_message =
  messageId :: string
  role :: string
  result_parts :: "message_part list"

datatype rpc_outcome = RpcError int string | RpcResult result_message

record rpc_response =
  jsonrpc :: string
  response_id :: rpc_id
  outcome :: rpc_outcome

text \<open>
  The handler ends by sending a reply, for which the status is 200 as no handler sets
  another, or with the exception of a call it awaited outside its \<open>try\<close> block.
\<close>

datatype execute_result = Reply nat rpc_response | Unhandled thrown

definition rpc_error :: "rpc_id \<Rightarrow> int \<Rightarrow> string \<Rightarrow> execute_result" where
  "rpc_error i c m = Reply 200 \<lparr>jsonrpc = ''2.0'', response_id = i, outcome = RpcError c m\<rparr>"

text \<open>
  \<open>params?.message?.parts?.filter((p) => p.kind === "text").map((p) => p.text).join("\n") || ""\<close>
\<close>

definition userMessage_of :: "rpc_request \<Rightarrow> string" where
  "userMessage_of b =
     (case params b of
        None \<Rightarrow> []
      | Some ps \<Rightarrow>
          (case params_message ps of
             None \<Rightarrow> []
           | Some m \<Rightarrow>
               (case parts m of
                  None \<Rightarrow> []
                | Some xs \<Rightarrow> join [CHR 0x0A] (map part_text (filter (\<lambda>p. kind p = ''text'') xs)))))"

text \<open>The system prompt built inside the \<open>try\<close> block.\<close>

definition build_systemPrompt :: "prompt \<Rightarrow> string option" where
  "build_systemPrompt p =
     (let systemPromptParts = (if truthy_string (systemPrompt p) then [the (systemPrompt p)] else []);
          userPromptParts = (if truthy_string (userPrompt p) then [the (userPrompt p)] else [])
      in if length systemPromptParts > 0 \<or> length userPromptParts > 0
         then Some (join [CHR 0x0A, CHR 0x0A] (systemPromptParts @ userPromptParts))
         else None)"

text \<open>The \<open>try\<close> block: it throws, or gives the final text of the model.\<close>

definition run_execution ::
  "('tools, 'model) a2a_env \<Rightarrow> prompt \<Rightarrow> agent \<Rightarrow> string \<Rightarrow> string \<Rightarrow> string \<Rightarrow> thrown + string"
where
  "run_execution env p a uid orgId userMessage =
     (case getChatMcpTools env (agent_name a) (agent_id a) uid of
        Inl e \<Rightarrow> Inl e
      | Inr mcpTools \<Rightarrow>
          (case createLLMModelForAgent env orgId uid (agent_id a) of
             Inl e \<Rightarrow> Inl e
           | Inr model \<Rightarrow> streamText env model (build_systemPrompt p) userMessage mcpTools))"

definition after_auth ::
  "('tools, 'model) a2a_env \<Rightarrow> execute_request \<Rightarrow> prompt \<Rightarrow> agent \<Rightarrow> string \<Rightarrow> string \<Rightarrow> execute_result"
where
  "after_auth env request p a uid orgId =
     (let i = request_id (rpc_body request);
          userMessage = userMessage_of (rpc_body request)
      in if userMessage = [] then rpc_error i (- 32602) ''No message content provided''
         else
           (case run_execution env p a uid orgId userMessage of
              Inr finalText \<Rightarrow>
                Reply 200
                  \<lparr>jsonrpc = ''2.0'', response_id = i,
                   outcome = RpcResult
                     \<lparr>messageId = fresh_messageId env, role = ''agent'',
                      result_parts = [\<lparr>kind = ''text'', part_text = finalText\<rparr>]\<rparr>\<rparr>
            | Inl error \<Rightarrow>
                rpc_error i (- 32603)
                  (case error of ThrownError m \<Rightarrow> m | ThrownOther \<Rightarrow> ''Internal error'')))"

definition a2a_execute :: "('tools, 'model) a2a_env \<Rightarrow> execute_request \<Rightarrow> execute_result" where
  "a2a_execute env request =
     (let i = request_id (rpc_body request) in
      case PromptModel_findById env (exec_promptId request) of
        Inl e \<Rightarrow> Unhandled e
      | Inr None \<Rightarrow> rpc_error i (- 32602) ''Prompt not found''
      | Inr (Some p) \<Rightarrow>
          (case AgentModel_findById env (agentId p) of
             Inl e \<Rightarrow> Unhandled e
           | Inr None \<Rightarrow> rpc_error i (- 32602) ''Agent not found for prompt''
           | Inr (Some a) \<Rightarrow>
               if \<not> truthy_string (exec_bearer request) then
                 rpc_error i (- 32600) ''Authorization header required. Use: Bearer <archestra_token>''
               else
                 (case validateMCPGatewayToken env (agent_id a) (the (exec_bearer request)) of
                    Inl e \<Rightarrow> Unhandled e
                  | Inr None \<Rightarrow> rpc_error i (- 32600) ''Invalid or unauthorized token''
                  | Inr (Some tokenAuth) \<Rightarrow>
                      if truthy_string (auth_userId tokenAuth) then
                        (case UserModel_getById env (the (auth_userId tokenAuth)) of
                           Inl e \<Rightarrow> Unhandled e
                         | Inr None \<Rightarrow> rpc_error i (- 32600) ''User not found for token''
                         | Inr (Some user) \<Rightarrow>
                             after_auth env request p a (the (auth_userId tokenAuth))
                               (auth_organizationId tokenAuth))
                      else after_auth env request p a ''system'' (auth_organizationId tokenAuth))))"

text \<open>
  Conditions on the environment and the request that the statements about the execution
  handler use. \<open>lookups_return\<close>: none of the four lookups made before the \<open>try\<close> block
  throws. \<open>authenticated\<close>: prompt and agent exist, the bearer token is valid for the
  agent, and the user of a user token exists; \<open>uid\<close> and \<open>orgId\<close> are then the user and
  organization the execution runs for.
\<close>

definition lookups_return :: "('tools, 'model) a2a_env \<Rightarrow> bool" where
  "lookups_return env \<longleftrightarrow>
     (\<forall>i. \<exists>r. PromptModel_findById env i = Inr r) \<and>
     (\<forall>i. \<exists>r. AgentModel_findById env i = Inr r) \<and>
     (\<forall>a t. \<exists>r. validateMCPGatewayToken env a t = Inr r) \<and>
     (\<forall>u. \<exists>r. UserModel_getById env u = Inr r)"

definition authenticated ::
  "('tools, 'model) a2a_env \<Rightarrow> execute_request \<Rightarrow> prompt \<Rightarrow> agent \<Rightarrow> string \<Rightarrow> string \<Rightarrow> bool"
where
  "authenticated env request p a uid orgId \<longleftrightarrow>
     PromptModel_findById env (exec_promptId request) = Inr (Some p) \<and>
     AgentModel_findById env (agentId p) = Inr (Some a) \<and>
     (\<exists>t tokenAuth. exec_bearer request = Some t \<and> t \<noteq> [] \<and>
        validateMCPGatewayToken env (agent_id a) t = Inr (Some tokenAuth) \<and>
        orgId = auth_organizationId tokenAuth \<and>
        ((\<exists>u user. auth_userId tokenAuth = Some u \<and> u \<noteq> [] \<and> uid = u \<and>
            UserModel_getById env u = Inr (Some user))
         \<or> (\<not> truthy_string (auth_userId tokenAuth) \<and> uid = ''system'')))"

text \<open>Environments and requests to run the handlers on.\<close>

definition demo_prompt :: prompt where
  "demo_prompt = \<lparr>prompt_id = ''prompt-1'', agentId = ''agent-1'', prompt_name = ''Helper'',
                   systemPrompt = Some ''You are helpful.'', userPrompt = None, version = 1\<rparr>"

definition demo_agent :: agent where
  "demo_agent = \<lparr>agent_id = ''agent-1'', agent_name = ''Helper agent''\<rparr>"

definition demo_env :: "(unit, unit) a2a_env" where
  "demo_env =
     \<lparr>PromptModel_findById = (\<lambda>i. if i = ''prompt-1'' then Inr (Some demo_prompt) else Inr None),
      AgentModel_findById = (\<lambda>i. if i = ''agent-1'' then Inr (Some demo_agent) else Inr None),
      validateMCPGatewayToken =
        (\<lambda>a t. if t = ''good-token''
           then Inr (Some \<lparr>auth_organizationId = ''org-a'', auth_userId = None\<rparr>) else Inr None),
      UserModel_getById = (\<lambda>u. Inr None),
      getChatMcpTools = (\<lambda>n a u. Inr ()),
      createLLMModelForAgent = (\<lambda>orgId u a. Inr ()),
      streamText = (\<lambda>m s p t. if p = ''fail'' then Inl (ThrownError ''provider down'')
                               else Inr (''echo: '' @ p)),
      fresh_messageId = ''msg-1''\<rparr>"

definition outage_env :: "(unit, unit) a2a_env" where
  "outage_env =
     demo_env\<lparr>PromptModel_findById := (\<lambda>i. Inl (ThrownError ''Connection terminated unexpectedly''))\<rparr>"

definition say :: "string option \<Rightarrow> string list \<Rightarrow> execute_request" where
  "say bearer texts =
     \<lparr>exec_promptId = ''prompt-1'', exec_bearer = bearer,
      rpc_body = \<lparr>request_id = IdNumber 1, rpc_method = ''message/send'',
        params = Some \<lparr>params_message = Some
          \<lparr>parts = Some (map (\<lambda>t. \<lparr>kind = ''text'', part_text = t\<rparr>) texts)\<rparr>\<rparr>\<rparr>\<rparr>"

section \<open>Rotating the key of the secret table\<close>

text \<open>
  A row of the secret table; the \<open>secret\<close> column holds a JSON value of some type \<open>'v\<close>.
  The functions of the crypto module are outside the sources at hand and are parameters
  of the model: \<open>deriveKeyFromSecret\<close>, \<open>isEncryptedSecret\<close>,
  \<open>decryptSecretValueWithKey\<close>, which throws when the value cannot be decrypted with the
  key, and \<open>encryptSecretValueWithKey\<close>, which draws a random initialization vector at
  each call; the model hands it the vector, the one numbered \<open>n\<close> of a given sequence at
  the call number \<open>n\<close>.
\<close>

record 'v secret_row =
  secret_id :: string
  secret_name :: string
  secret :: 'v

record ('v, 'key, 'iv) crypto =
  deriveKeyFromSecret :: "string \<Rightarrow> 'key"
  isEncryptedSecret :: "'v \<Rightarrow> bool"
  decryptSecretValueWithKey :: "'v \<Rightarrow> 'key \<Rightarrow> thrown + 'v"
  encryptSecretValueWithKey :: "'v \<Rightarrow> 'key \<Rightarrow> 'iv \<Rightarrow> 'v"
  random_iv :: "nat \<Rightarrow> 'iv"

text \<open>
  The database: the rows of the secret table and the log of the statements executed,
  which shows what was read and written and inside which transaction.
\<close>

datatype statement = Select | Begin | Update string | Commit | Rollback

record 'v database =
  secretsTable :: "'v secret_row list"
  statements :: "statement list"

definition run :: "statement \<Rightarrow> 'v database \<Rightarrow> 'v database" where
  "run s db = db\<lparr>statements := statements db @ [s]\<rparr>"

text \<open>\<open>tx.update(secretsTable).set({ secret: encrypted }).where(eq(secretsTable.id, id))\<close>\<close>

definition update_secret :: "string \<Rightarrow> 'v \<Rightarrow> 'v database \<Rightarrow> 'v database" where
  "update_secret i encrypted db =
     run (Update i)
       (db\<lparr>secretsTable := map (\<lambda>r. if secret_id r = i then r\<lparr>secret := encrypted\<rparr> else r)
                              (secretsTable db)\<rparr>)"

text \<open>
  \<open>db.transaction(callback)\<close>: the callback runs after \<open>BEGIN\<close>; when it returns the
  transaction commits, and when it throws the transaction is rolled back, which restores
  the table, and the exception is thrown on.
\<close>

definition transaction ::
  "('v database \<Rightarrow> (thrown + 'a) \<times> 'v database) \<Rightarrow> 'v database \<Rightarrow> (thrown + 'a) \<times> 'v database"
where
  "transaction callback db =
     (case callback (run Begin db) of
        (Inl e, db') \<Rightarrow> (Inl e, run Rollback (db'\<lparr>secretsTable := secretsTable db\<rparr>))
      | (Inr x, db') \<Rightarrow> (Inr x, run Commit db'))"

record rotation_counts =
  total :: nat
  reEncrypted :: nat
  newlyEncrypted :: nat

text \<open>
  The message of the error thrown for identical secrets, with the dash of the source
  (U+2014) as its three bytes.
\<close>

definition IDENTICAL_SECRETS :: thrown where
  "IDENTICAL_SECRETS =
     ThrownError (''Old and new secrets are identical '' @ [CHR 0xE2, CHR 0x80, CHR 0x94] @
       '' nothing to rotate.'')"

text \<open>The loop of the dry run, with the two counters.\<close>

fun dry_run_loop ::
  "('v, 'key, 'iv) crypto \<Rightarrow> 'key \<Rightarrow> 'v secret_row list \<Rightarrow> nat \<Rightarrow> nat \<Rightarrow> thrown + nat \<times> nat"
where
  "dry_run_loop c oldKey [] re nw = Inr (re, nw)"
| "dry_run_loop c oldKey (row # rows) re nw =
     (if isEncryptedSecret c (secret row) then
        (case decryptSecretValueWithKey c (secret row) oldKey of
           Inl e \<Rightarrow> Inl e
         | Inr plaintext \<Rightarrow> dry_run_loop c oldKey rows (re + 1) nw)
      else dry_run_loop c oldKey rows re (nw + 1))"

text \<open>
  The loop inside the transaction. It goes through the rows read before the transaction;
  \<open>n\<close> counts the calls of \<open>encryptSecretValueWithKey\<close> made so far.
\<close>

fun rotate_loop ::
  "('v, 'key, 'iv) crypto \<Rightarrow> 'key \<Rightarrow> 'key \<Rightarrow> 'v secret_row list \<Rightarrow> nat \<Rightarrow> nat \<Rightarrow> nat \<Rightarrow>
     'v database \<Rightarrow> (thrown + nat \<times> nat) \<times> 'v database"
where
  "rotate_loop c oldKey newKey [] n re nw tx = (Inr (re, nw), tx)"
| "rotate_loop c oldKey newKey (row # rows) n re nw tx =
     (if isEncryptedSecret c (secret row) then
        (case decryptSecretValueWithKey c (secret row) oldKey of
           Inl e \<Rightarrow> (Inl e, tx)
         | Inr plaintext \<Rightarrow>
             rotate_loop c oldKey newKey rows (n + 1) (re + 1) nw
               (update_secret (secret_id row)
                  (encryptSecretValueWithKey c plaintext newKey (random_iv c n)) tx))
      else
        rotate_loop c oldKey newKey rows (n + 1) re (nw + 1)
          (update_secret (secret_id row)
             (encryptSecretValueWithKey c (secret row) newKey (random_iv c n)) tx))"

definition rotateSecretEncryptionKey ::
  "('v, 'key, 'iv) crypto \<Rightarrow> string \<Rightarrow> string \<Rightarrow> bool \<Rightarrow> 'v database \<Rightarrow>
     (thrown + rotation_counts) \<times> 'v database"
where
  "rotateSecretEncryptionKey c oldSecret newSecret dryRun db =
     (if oldSecret = newSecret then (Inl IDENTICAL_SECRETS, db)
      else
        (let oldKey = deriveKeyFromSecret c oldSecret;
             newKey = deriveKeyFromSecret c newSecret;
             rows = secretsTable db;
             db1 = run Select db
         in if dryRun then
              (case dry_run_loop c oldKey rows 0 0 of
                 Inl e \<Rightarrow> (Inl e, db1)
               | Inr (re, nw) \<Rightarrow>
                   (Inr \<lparr>total = length rows, reEncrypted = re, newlyEncrypted = nw\<rparr>, db1))
            else
              (case transaction (rotate_loop c oldKey newKey rows 0 0 0) db1 of
                 (Inl e, db2) \<Rightarrow> (Inl e, db2)
               | (Inr (re, nw), db2) \<Rightarrow>
                   (Inr \<lparr>total = length rows, reEncrypted = re, newlyEncrypted = nw\<rparr>, db2))))"

text \<open>
  What the rotation is to store for a row: the row's plaintext, decrypted with the old
  key if the row is encrypted, encrypted with the new key and the vector \<open>iv\<close>.
\<close>

definition plaintext_of :: "('v, 'key, 'iv) crypto \<Rightarrow> string \<Rightarrow> 'v secret_row \<Rightarrow> thrown + 'v" where
  "plaintext_of c oldSecret row =
     (if isEncryptedSecret c (secret row)
      then decryptSecretValueWithKey c (secret row) (deriveKeyFromSecret c oldSecret)
      else Inr (secret row))"

definition rotated_row ::
  "('v, 'key, 'iv) crypto \<Rightarrow> string \<Rightarrow> string \<Rightarrow> 'iv \<Rightarrow> 'v secret_row \<Rightarrow> 'v secret_row"
where
  "rotated_row c oldSecret newSecret iv row =
     (case plaintext_of c oldSecret row of
        Inr plaintext \<Rightarrow>
          row\<lparr>secret := encryptSecretValueWithKey c plaintext (deriveKeyFromSecret c newSecret) iv\<rparr>
      | Inl e \<Rightarrow> row)"

text \<open>
  A toy crypto module to run the script with: a secret value is plaintext or a
  ciphertext made of the key, the vector and the plaintext; decrypting with another key
  throws.
\<close>

datatype toy_value = Plain string | Cipher string nat string

definition toy_crypto :: "(toy_value, string, nat) crypto" where
  "toy_crypto =
     \<lparr>deriveKeyFromSecret = (\<lambda>s. s),
      isEncryptedSecret = (\<lambda>v. case v of Plain _ \<Rightarrow> False | Cipher _ _ _ \<Rightarrow> True),
      decryptSecretValueWithKey =
        (\<lambda>v k. case v of
           Cipher k' iv p \<Rightarrow> if k' = k then Inr (Plain p)
                             else Inl (ThrownError ''Unsupported state or unable to authenticate data'')
         | Plain p \<Rightarrow> Inl (ThrownError ''Invalid encrypted secret format'')),
      encryptSecretValueWithKey =
        (\<lambda>v k iv. case v of Plain p \<Rightarrow> Cipher k iv p | Cipher k' iv' p \<Rightarrow> Cipher k iv p),
      random_iv = (\<lambda>n. 100 + n)\<rparr>"

definition toy_db :: "toy_value database" where
  "toy_db =
     \<lparr>secretsTable =
        [\<lparr>secret_id = ''s1'', secret_name = ''api'', secret = Cipher ''old'' 7 ''sk-123''\<rparr>,
         \<lparr>secret_id = ''s2'', secret_name = ''legacy'', secret = Plain ''token''\<rparr>],
      statements = []\<rparr>"

definition broken_db :: "toy_value database" where
  "broken_db =
     \<lparr>secretsTable =
        [\<lparr>secret_id = ''s1'', secret_name = ''legacy'', secret = Plain ''token''\<rparr>,
         \<lparr>secret_id = ''s2'', secret_name = ''foreign'', secret = Cipher ''other'' 7 ''sk-123''\<rparr>],
      statements = []\<rparr>"

text \<open>The rows as the rotation is to leave them, the first encrypted with the vector \<open>n\<close>.\<close>

fun rotate_rows ::
  "('v, 'key, 'iv) crypto \<Rightarrow> string \<Rightarrow> string \<Rightarrow> nat \<Rightarrow> 'v secret_row list \<Rightarrow> 'v secret_row list"
where
  "rotate_rows c oldSecret newSecret n [] = []"
| "rotate_rows c oldSecret newSecret n (row # rows) =
     rotated_row c oldSecret newSecret (random_iv c n) row #
     rotate_rows c oldSecret newSecret (n + 1) rows"

definition decryptable :: "('v, 'key, 'iv) crypto \<Rightarrow> string \<Rightarrow> 'v secret_row \<Rightarrow> bool" where
  "decryptable c oldSecret row \<longleftrightarrow> (\<exists>p. plaintext_of c oldSecret row = Inr p)"

section \<open>Envelope encryption of secret values\<close>

text \<open>
  The crypto module is not among the sources at hand; its two functions are modelled from
  the specification. What the specification leaves to the platform is a parameter: JSON
  serialization and parsing, the authenticated cipher, the base64url coding of byte
  strings, and the derivation of the key. Byte strings are values of a type \<open>'b\<close>, JSON
  values of a type \<open>'j\<close>. The cipher's decryption and the JSON parser give nothing where
  they throw. The random initialization vector of a call is an argument of the model.
\<close>

record ('j, 'b, 'key) primitives =
  json_stringify :: "'j \<Rightarrow> 'b"
  json_parse :: "'b \<Rightarrow> 'j option"
  cipher_encrypt :: "'key \<Rightarrow> 'b \<Rightarrow> 'b \<Rightarrow> 'b \<times> 'b"
  cipher_decrypt :: "'key \<Rightarrow> 'b \<Rightarrow> 'b \<Rightarrow> 'b \<Rightarrow> 'b option"
  base64url_encode :: "'b \<Rightarrow> string"
  base64url_decode :: "string \<Rightarrow> 'b"
  derive_key :: "string \<Rightarrow> 'key"

datatype crypto_error = MissingAuthSecret | InvalidFormat | AuthenticationFailed | JsonSyntaxError

text \<open>\<open>String.prototype.split\<close> with a one-character separator.\<close>

fun split_on :: "char \<Rightarrow> string \<Rightarrow> string list" where
  "split_on c [] = [[]]"
| "split_on c (x # xs) =
     (if x = c then [] # split_on c xs
      else (case split_on c xs of
              w # ws \<Rightarrow> (x # w) # ws
            | [] \<Rightarrow> [[x]]))"

text \<open>
  Modelled from the spec: \<open>encryptSecretValueWithKey\<close> of the missing crypto module. It
  serializes the object to JSON, encrypts it with the authenticated cipher under the
  vector of this call, and returns the wrapper whose \<open>__encrypted\<close> string is
  \<open>v1:<iv>:<authTag>:<ciphertext>\<close>, each component base64url-encoded. The wrapper is
  modelled by that string.
\<close>

definition encryptSecretValueWithKey_spec ::
  "('j, 'b, 'key) primitives \<Rightarrow> 'j \<Rightarrow> 'key \<Rightarrow> 'b \<Rightarrow> string"
where
  "encryptSecretValueWithKey_spec prims plaintextObject key iv =
     (case cipher_encrypt prims key iv (json_stringify prims plaintextObject) of
        (ciphertext, authTag) \<Rightarrow>
          ''v1:'' @ base64url_encode prims iv @ '':'' @ base64url_encode prims authTag @ '':'' @
          base64url_encode prims ciphertext)"

text \<open>
  Modelled from the spec: \<open>decryptSecretValueWithKey\<close> of the missing crypto module. It
  splits the string at the colons into exactly 4 parts; any other shape, or a version
  tag other than \<open>v1\<close>, fails with the format error. A ciphertext or tag that does not
  verify makes the cipher fail. The plaintext is parsed as JSON.
\<close>

definition decryptSecretValueWithKey_spec ::
  "('j, 'b, 'key) primitives \<Rightarrow> string \<Rightarrow> 'key \<Rightarrow> crypto_error + 'j"
where
  "decryptSecretValueWithKey_spec prims encrypted key =
     (case split_on (CHR '':'') encrypted of
        [v, iv, authTag, ciphertext] \<Rightarrow>
          if v \<noteq> ''v1'' then Inl InvalidFormat
          else
            (case cipher_decrypt prims key (base64url_decode prims iv)
                    (base64url_decode prims authTag) (base64url_decode prims ciphertext) of
               None \<Rightarrow> Inl AuthenticationFailed
             | Some plaintext \<Rightarrow>
                 (case json_parse prims plaintext of
                    None \<Rightarrow> Inl JsonSyntaxError
                  | Some j \<Rightarrow> Inr j))
      | _ \<Rightarrow> Inl InvalidFormat)"

text \<open>
  Modelled from the spec: the ambient-key wrappers \<open>encryptSecretValue\<close> and
  \<open>decryptSecretValue\<close> of the missing crypto module, which use the key derived from
  the application secret \<open>ARCHESTRA_AUTH_SECRET\<close> and fail when it is not set.
\<close>

definition encryptSecretValue ::
  "('j, 'b, 'key) primitives \<Rightarrow> string option \<Rightarrow> 'j \<Rightarrow> 'b \<Rightarrow> crypto_error + string"
where
  "encryptSecretValue prims auth_secret plaintextObject iv =
     (case auth_secret of
        None \<Rightarrow> Inl MissingAuthSecret
      | Some s \<Rightarrow> Inr (encryptSecretValueWithKey_spec prims plaintextObject (derive_key prims s) iv))"

definition decryptSecretValue ::
  "('j, 'b, 'key) primitives \<Rightarrow> string option \<Rightarrow> string \<Rightarrow> crypto_error + 'j"
where
  "decryptSecretValue prims auth_secret encrypted =
     (case auth_secret of
        None \<Rightarrow> Inl MissingAuthSecret
      | Some s \<Rightarrow> decryptSecretValueWithKey_spec prims encrypted (derive_key prims s))"

text \<open>
  What the statements ask of the parameters: the value survives serialization and
  parsing; the cipher decrypts what it encrypted, under the same key and vector; and
  decoding undoes the base64url encoding, whose alphabet has no colon.
\<close>

definition json_serializable :: "('j, 'b, 'key) primitives \<Rightarrow> 'j \<Rightarrow> bool" where
  "json_serializable prims P \<longleftrightarrow> json_parse prims (json_stringify prims P) = Some P"

definition cipher_correct :: "('j, 'b, 'key) primitives \<Rightarrow> bool" where
  "cipher_correct prims \<longleftrightarrow>
     (\<forall>key iv plaintext ciphertext authTag.
        cipher_encrypt prims key iv plaintext = (ciphertext, authTag) \<longrightarrow>
        cipher_decrypt prims key iv authTag ciphertext = Some plaintext)"

definition base64url_correct :: "('j, 'b, 'key) primitives \<Rightarrow> bool" where
  "base64url_correct prims \<longleftrightarrow>
     (\<forall>b. base64url_decode prims (base64url_encode prims b) = b \<and>
          CHR '':'' \<notin> set (base64url_encode prims b))"

text \<open>
  Primitives to run the model with: bytes are bits, written \<open>0\<close> and \<open>1\<close>; the cipher
  flips the bits of the plaintext and its tag is the key followed by the vector.
\<close>

definition toy_primitives :: "(bool list, bool list, bool list) primitives" where
  "toy_primitives =
     \<lparr>json_stringify = (\<lambda>j. j),
      json_parse = (\<lambda>b. Some b),
      cipher_encrypt = (\<lambda>key iv plaintext. (map Not plaintext, key @ iv)),
      cipher_decrypt = (\<lambda>key iv authTag ciphertext.
         if authTag = key @ iv then Some (map Not ciphertext) else None),
      base64url_encode = map (\<lambda>b. if b then CHR ''1'' else CHR ''0''),
      base64url_decode = map (\<lambda>c. c = CHR ''1''),
      derive_key = map (\<lambda>c. c = CHR ''1'')\<rparr>"

section \<open>Properties of the transient-error test\<close>

lemma startsWith_iff: "startsWith s p \<longleftrightarrow> (\<exists>ys. s = p @ ys)"
  by (induction s p rule: startsWith.induct) auto

lemma includes_str_iff: "includes_str s p \<longleftrightarrow> (\<exists>xs ys. s = xs @ p @ ys)"
proof (induction s)
  case Nil
  then show ?case by auto
next
  case (Cons c cs)
  show ?case
  proof
    assume "includes_str (c # cs) p"
    then consider "startsWith (c # cs) p" | "includes_str cs p" by auto
    then show "\<exists>xs ys. c # cs = xs @ p @ ys"
    proof cases
      case 1
      then obtain ys where "c # cs = p @ ys" by (auto simp: startsWith_iff)
      then have "c # cs = [] @ p @ ys" by simp
      then show ?thesis by blast
    next
      case 2
      then obtain xs ys where "cs = xs @ p @ ys" using Cons.IH by auto
      then have "c # cs = (c # xs) @ p @ ys" by simp
      then show ?thesis by blast
    qed
  next
    assume "\<exists>xs ys. c # cs = xs @ p @ ys"
    then obtain xs ys where eq: "c # cs = xs @ p @ ys" by blast
    show "includes_str (c # cs) p"
    proof (cases xs)
      case Nil
      then have "startsWith (c # cs) p" using eq by (auto simp: startsWith_iff)
      then show ?thesis by simp
    next
      case (Cons x xs')
      then have "cs = xs' @ p @ ys" using eq by simp
      then have "includes_str cs p" using Cons.IH by blast
      then show ?thesis by simp
    qed
  qed
qed

lemma bex_ex_reorder: "(\<exists>p\<in>S. \<exists>xs ys. P p xs ys) \<longleftrightarrow> (\<exists>p xs ys. P p xs ys \<and> p \<in> S)"
  by blast

lemma set_TRANSIENT_PG_CODES:
  "set TRANSIENT_PG_CODES =
     {''08000'', ''08001'', ''08003'', ''08004'', ''08006'', ''57P01'', ''57P02'', ''57P03''}"
  unfolding TRANSIENT_PG_CODES_def by (simp only: list.set)

lemma set_TRANSIENT_ERROR_PATTERNS:
  "set TRANSIENT_ERROR_PATTERNS =
     {''ECONNREFUSED'', ''ECONNRESET'', ''EPIPE'', ''ETIMEDOUT'',
      ''Connection terminated'', ''timeout expired''}"
  unfolding TRANSIENT_ERROR_PATTERNS_def by (simp only: list.set)

lemma has_transient_code_iff:
  "has_transient_code e \<longleftrightarrow> (\<exists>c. code e = Some c \<and> c \<in> set TRANSIENT_PG_CODES)"
proof (cases "code e")
  case None
  then show ?thesis by (simp add: has_transient_code_def)
next
  case (Some c)
  have "[] \<notin> set TRANSIENT_PG_CODES" by (simp add: TRANSIENT_PG_CODES_def)
  then have "c \<in> set TRANSIENT_PG_CODES \<Longrightarrow> c \<noteq> []" by blast
  then show ?thesis using Some by (auto simp: has_transient_code_def)
qed

lemma has_transient_message_iff:
  "has_transient_message e \<longleftrightarrow>
     (\<exists>p xs ys. message e = xs @ p @ ys \<and> p \<in> set TRANSIENT_ERROR_PATTERNS)"
  unfolding has_transient_message_def list_ex_iff includes_str_iff
  by (rule bex_ex_reorder)

lemma transient_here_iff: "transient_here e \<longleftrightarrow> carries_transient_marker e"
  unfolding transient_here_def carries_transient_marker_def
    has_transient_code_iff has_transient_message_iff
    set_TRANSIENT_PG_CODES set_TRANSIENT_ERROR_PATTERNS ..

lemma nth_cause_NonError: "nth_cause h (NonError b) k \<noteq> Some (ErrorRef a)"
  by (cases k) auto

lemma isTransient_NonError: "\<not> isTransientDbError h (NonError b) depth"
  by (simp add: isTransientDbError.simps)

lemma isTransient_too_deep: "depth > MAX_CAUSE_DEPTH \<Longrightarrow> \<not> isTransientDbError h v depth"
  by (cases v) (auto simp: isTransientDbError.simps)

lemma chain_unfold:
  "(\<exists>k a'. k + d \<le> m \<and> nth_cause h (ErrorRef a) k = Some (ErrorRef a') \<and> P a') \<longleftrightarrow>
   (d \<le> m \<and> P a) \<or>
   (\<exists>k a'. k + Suc d \<le> m \<and> nth_cause h (cause (h a)) k = Some (ErrorRef a') \<and> P a')"
  (is "?L \<longleftrightarrow> ?A \<or> ?B")
proof
  assume ?L
  then obtain k a' where k: "k + d \<le> m" "nth_cause h (ErrorRef a) k = Some (ErrorRef a')" "P a'"
    by blast
  show "?A \<or> ?B"
  proof (cases k)
    case 0
    then show ?thesis using k by simp
  next
    case (Suc j)
    then have "j + Suc d \<le> m" "nth_cause h (cause (h a)) j = Some (ErrorRef a')"
      using k by simp_all
    then show ?thesis using k(3) by blast
  qed
next
  assume "?A \<or> ?B"
  then show ?L
  proof
    assume ?A
    then have "0 + d \<le> m \<and> nth_cause h (ErrorRef a) 0 = Some (ErrorRef a) \<and> P a" by simp
    then show ?L by blast
  next
    assume ?B
    then obtain k a' where "k + Suc d \<le> m" "nth_cause h (cause (h a)) k = Some (ErrorRef a')" "P a'"
      by blast
    then have "Suc k + d \<le> m \<and> nth_cause h (ErrorRef a) (Suc k) = Some (ErrorRef a') \<and> P a'"
      by simp
    then show ?L by blast
  qed
qed

lemma isTransient_depth:
  "depth \<le> MAX_CAUSE_DEPTH \<Longrightarrow>
   isTransientDbError h v depth \<longleftrightarrow>
     (\<exists>k a. k + depth \<le> MAX_CAUSE_DEPTH \<and> nth_cause h v k = Some (ErrorRef a) \<and> transient_here (h a))"
proof (induction h v depth rule: isTransientDbError.induct)
  case (1 h error depth)
  show ?case
  proof (cases error)
    case (NonError b)
    then show ?thesis by (simp add: nth_cause_NonError isTransient_NonError)
  next
    case (ErrorRef a)
    let ?B = "\<exists>k a'. k + Suc depth \<le> MAX_CAUSE_DEPTH \<and>
                nth_cause h (cause (h a)) k = Some (ErrorRef a') \<and> transient_here (h a')"
    have rhs: "(\<exists>k a'. k + depth \<le> MAX_CAUSE_DEPTH \<and> nth_cause h error k = Some (ErrorRef a') \<and>
                 transient_here (h a')) \<longleftrightarrow> transient_here (h a) \<or> ?B"
      unfolding ErrorRef using chain_unfold [of depth MAX_CAUSE_DEPTH h a "\<lambda>x. transient_here (h x)"] "1.prems"
      by simp
    show ?thesis
    proof (cases "transient_here (h a)")
      case True
      then have "isTransientDbError h error depth"
        using ErrorRef "1.prems"
        by (subst isTransientDbError.simps) (auto simp: transient_here_def)
      then show ?thesis using rhs True by simp
    next
      case nt: False
      then have nc: "\<not> has_transient_code (h a)" and nm: "\<not> has_transient_message (h a)"
        by (simp_all add: transient_here_def)
      have step: "isTransientDbError h error depth \<longleftrightarrow>
                  truthy (cause (h a)) \<and> isTransientDbError h (cause (h a)) (depth + 1)"
        using ErrorRef "1.prems" nc nm by (subst isTransientDbError.simps) simp
      show ?thesis
      proof (cases "truthy (cause (h a))")
        case False
        then obtain b where "cause (h a) = NonError b"
          by (cases "cause (h a)") auto
        then have "\<not> ?B" by (simp add: nth_cause_NonError)
        then show ?thesis using step False rhs nt by simp
      next
        case True
        show ?thesis
        proof (cases "depth + 1 \<le> MAX_CAUSE_DEPTH")
          case le: True
          have "isTransientDbError h (cause (h a)) (depth + 1) \<longleftrightarrow>
                (\<exists>k a'. k + (depth + 1) \<le> MAX_CAUSE_DEPTH \<and>
                   nth_cause h (cause (h a)) k = Some (ErrorRef a') \<and> transient_here (h a'))"
            using "1.IH" [OF ErrorRef _ nc nm True le] "1.prems" by simp
          then show ?thesis using step True rhs nt by simp
        next
          case gt: False
          then have "\<not> isTransientDbError h (cause (h a)) (depth + 1)"
            by (intro isTransient_too_deep) simp
          moreover have "\<not> ?B" using gt by simp
          ultimately show ?thesis using step rhs nt by simp
        qed
      qed
    qed
  qed
qed

text \<open>
  Claim C4. \<open>isTransientDbError(v)\<close>, called with the default depth 0, is true exactly
  when \<open>v\<close> is an \<open>Error\<close> and some \<open>Error\<close> at most 5 causes down its chain carries a
  code of the listed set or a message that contains one of the listed substrings. It is
  false for every value that is not an \<open>Error\<close>, and false when no \<open>Error\<close> within 5
  causes carries such a marker, wherever else in the chain one may sit.
\<close>

theorem isTransientDbError_exactly:
  "(isTransientDbError h v 0 \<longleftrightarrow>
      (\<exists>k a. k \<le> 5 \<and> nth_cause h v k = Some (ErrorRef a) \<and> carries_transient_marker (h a)))
   \<and> \<not> isTransientDbError h (NonError b) 0
   \<and> ((\<forall>k a. k \<le> 5 \<and> nth_cause h v k = Some (ErrorRef a) \<longrightarrow> \<not> carries_transient_marker (h a))
        \<longrightarrow> \<not> isTransientDbError h v 0)"
proof -
  have main: "isTransientDbError h v 0 \<longleftrightarrow>
      (\<exists>k a. k \<le> 5 \<and> nth_cause h v k = Some (ErrorRef a) \<and> carries_transient_marker (h a))"
    for v
    using isTransient_depth [of 0 h v]
    by (simp add: MAX_CAUSE_DEPTH_def transient_here_iff)
  have "\<not> isTransientDbError h (NonError b) 0" by (rule isTransient_NonError)
  moreover have "(\<forall>k a. k \<le> 5 \<and> nth_cause h v k = Some (ErrorRef a) \<longrightarrow> \<not> carries_transient_marker (h a))
        \<longrightarrow> \<not> isTransientDbError h v 0"
    unfolding main by blast
  ultimately show ?thesis using main by blast
qed

theorem isTransientDbError_exactly_witness:
  "isTransientDbError chain_heap (ErrorRef 1) 0
   \<and> \<not> isTransientDbError chain_heap (ErrorRef 0) 0
   \<and> \<not> isTransientDbError cyclic_heap (ErrorRef 0) 0
   \<and> \<not> isTransientDbError chain_heap (NonError True) 0"
proof -
  have five: "nth_cause chain_heap (ErrorRef 1) 5 = Some (ErrorRef 6)"
    by code_simp
  have marker: "carries_transient_marker (chain_heap 6)"
    by (simp add: carries_transient_marker_def chain_heap_def)
  have a: "isTransientDbError chain_heap (ErrorRef 1) 0"
    using isTransientDbError_exactly [of chain_heap "ErrorRef 1" True] five marker by blast
  have b: "\<not> isTransientDbError chain_heap (ErrorRef 0) 0" by code_simp
  have c: "\<not> isTransientDbError cyclic_heap (ErrorRef 0) 0" by code_simp
  have d: "\<not> isTransientDbError chain_heap (NonError True) 0"
    using isTransientDbError_exactly [of chain_heap "ErrorRef 1" True] by blast
  show ?thesis using a b c d by blast
qed

section \<open>Properties of the retry loop\<close>

lemma state_after_Suc: "state_after fn s (Suc k) = snd (fn (state_after fn s k))"
  by (induction k arbitrary: s) simp_all

lemma loop_unreachable:
  "maxRetries < attempt \<Longrightarrow> withDbRetry_loop h fn maxRetries attempt s calls = (ThrownUnreachable, s, calls)"
  by (simp add: withDbRetry_loop.simps)

lemma loop_general:
  assumes "\<forall>j<k. rejects_transient h fn (state_after fn s j)"
    and "attempt + int k \<le> maxRetries"
  shows "withDbRetry_loop h fn maxRetries attempt s calls =
     (case fst (fn (state_after fn s k)) of
        Fulfilled v \<Rightarrow> (Returned v, state_after fn s (Suc k), calls + k + 1)
      | Rejected e \<Rightarrow>
          if isTransientDbError h e 0 \<and> attempt + int k < maxRetries
          then withDbRetry_loop h fn maxRetries (attempt + int k + 1) (state_after fn s (Suc k)) (calls + k + 1)
          else (Rethrown e, state_after fn s (Suc k), calls + k + 1))"
  using assms
proof (induction k arbitrary: attempt s calls)
  case 0
  then show ?case
    by (subst withDbRetry_loop.simps) (cases "fn s", auto split: settled.splits)
next
  case (Suc k)
  have r0: "rejects_transient h fn s" using Suc.prems(1) by force
  then obtain e s' where fs: "fn s = (Rejected e, s')" and te: "isTransientDbError h e 0"
    by (cases "fn s"; cases "fst (fn s)") (auto simp: rejects_transient_def)
  have lt: "attempt < maxRetries" using Suc.prems(2) by simp
  have step: "withDbRetry_loop h fn maxRetries attempt s calls =
              withDbRetry_loop h fn maxRetries (attempt + 1) s' (calls + 1)"
    using fs te lt by (subst withDbRetry_loop.simps) simp
  have rest: "\<forall>j<k. rejects_transient h fn (state_after fn s' j)"
  proof (intro allI impI)
    fix j assume "j < k"
    then have "Suc j < Suc k" by simp
    then have "rejects_transient h fn (state_after fn s (Suc j))" using Suc.prems(1) by blast
    then show "rejects_transient h fn (state_after fn s' j)" using fs by simp
  qed
  have le: "(attempt + 1) + int k \<le> maxRetries" using Suc.prems(2) by simp
  have sa: "\<And>n. state_after fn s (Suc n) = state_after fn s' n" using fs by simp
  have e1: "attempt + 1 + int k = attempt + int (Suc k)" by simp
  have e2: "calls + 1 + k = calls + Suc k" by simp
  show ?case
    unfolding step Suc.IH [OF rest le] sa e1 e2 ..
qed

lemma withDbRetry_settles:
  assumes "\<forall>j<k. rejects_transient h fn (state_after fn s j)"
    and "int k \<le> N"
  shows "withDbRetry h fn (Some N) s =
     (case fst (fn (state_after fn s k)) of
        Fulfilled v \<Rightarrow> (Returned v, state_after fn s (Suc k), Suc k)
      | Rejected e \<Rightarrow>
          if isTransientDbError h e 0 \<and> int k < N
          then withDbRetry_loop h fn N (int k + 1) (state_after fn s (Suc k)) (Suc k)
          else (Rethrown e, state_after fn s (Suc k), Suc k))"
  unfolding withDbRetry_def
  using loop_general [OF assms(1), of 0 N 0] assms(2) by (auto split: settled.splits)

text \<open>
  With a negative budget the loop body never runs: \<open>fn\<close> is not invoked, and what is
  thrown is the error of the last line of the source, not an error of \<open>fn\<close>.
\<close>

lemma withDbRetry_negative_budget:
  "N < 0 \<Longrightarrow> withDbRetry h fn (Some N) s = (ThrownUnreachable, s, 0)"
  by (simp add: withDbRetry_def loop_unreachable)

lemma withDbRetry_default_budget: "withDbRetry h fn None s = withDbRetry h fn (Some 3) s"
  by (simp add: withDbRetry_def MAX_RETRIES_def)

text \<open>
  Claim C3, for a retry budget \<open>N\<close> that is a count (\<open>0 \<le> N\<close>). If each of the
  invocations rejects with a transient database error, \<open>fn\<close> is invoked exactly \<open>N + 1\<close>
  times and the error of the last invocation is rethrown. If \<open>fn\<close> rejects with an error
  that is not transient, it is invoked exactly once and that error is rethrown; the same
  holds at a later attempt, which is then the last. If an invocation is fulfilled, its
  value is returned and it is the last invocation. The results give, with the outcome,
  the state \<open>fn\<close> left and the number of invocations made.
\<close>

theorem withDbRetry_attempts:
  assumes "0 \<le> N"
  shows
    "((\<forall>k\<le>nat N. rejects_transient h fn (state_after fn s k)) \<longrightarrow>
        (\<exists>e. fst (fn (state_after fn s (nat N))) = Rejected e \<and>
             withDbRetry h fn (Some N) s = (Rethrown e, state_after fn s (nat N + 1), nat N + 1)))
     \<and> (\<forall>e. fst (fn s) = Rejected e \<and> \<not> isTransientDbError h e 0 \<longrightarrow>
             withDbRetry h fn (Some N) s = (Rethrown e, snd (fn s), 1))
     \<and> (\<forall>k e. int k \<le> N \<and> (\<forall>j<k. rejects_transient h fn (state_after fn s j)) \<and>
             fst (fn (state_after fn s k)) = Rejected e \<and> \<not> isTransientDbError h e 0 \<longrightarrow>
             withDbRetry h fn (Some N) s = (Rethrown e, state_after fn s (Suc k), Suc k))
     \<and> (\<forall>k v. int k \<le> N \<and> (\<forall>j<k. rejects_transient h fn (state_after fn s j)) \<and>
             fst (fn (state_after fn s k)) = Fulfilled v \<longrightarrow>
             withDbRetry h fn (Some N) s = (Returned v, state_after fn s (Suc k), Suc k))"
proof (intro conjI allI impI)
  assume all: "\<forall>k\<le>nat N. rejects_transient h fn (state_after fn s k)"
  then have last: "rejects_transient h fn (state_after fn s (nat N))" by simp
  then obtain e where e: "fst (fn (state_after fn s (nat N))) = Rejected e"
    by (cases "fst (fn (state_after fn s (nat N)))") (auto simp: rejects_transient_def)
  have before: "\<forall>j<nat N. rejects_transient h fn (state_after fn s j)" using all by simp
  have "withDbRetry h fn (Some N) s = (Rethrown e, state_after fn s (nat N + 1), nat N + 1)"
    using withDbRetry_settles [OF before, of N] assms e by simp
  then show "\<exists>e. fst (fn (state_after fn s (nat N))) = Rejected e \<and>
             withDbRetry h fn (Some N) s = (Rethrown e, state_after fn s (nat N + 1), nat N + 1)"
    using e by blast
next
  fix e
  assume a: "fst (fn s) = Rejected e \<and> \<not> isTransientDbError h e 0"
  have none: "\<forall>j<0::nat. rejects_transient h fn (state_after fn s j)" by simp
  show "withDbRetry h fn (Some N) s = (Rethrown e, snd (fn s), 1)"
    using withDbRetry_settles [OF none, of N] assms a by simp
next
  fix k e
  assume a: "int k \<le> N \<and> (\<forall>j<k. rejects_transient h fn (state_after fn s j)) \<and>
             fst (fn (state_after fn s k)) = Rejected e \<and> \<not> isTransientDbError h e 0"
  then have before: "\<forall>j<k. rejects_transient h fn (state_after fn s j)" and le: "int k \<le> N"
    by simp_all
  show "withDbRetry h fn (Some N) s = (Rethrown e, state_after fn s (Suc k), Suc k)"
    using withDbRetry_settles [OF before le] a by simp
next
  fix k v
  assume a: "int k \<le> N \<and> (\<forall>j<k. rejects_transient h fn (state_after fn s j)) \<and>
             fst (fn (state_after fn s k)) = Fulfilled v"
  then have before: "\<forall>j<k. rejects_transient h fn (state_after fn s j)" and le: "int k \<le> N"
    by simp_all
  show "withDbRetry h fn (Some N) s = (Returned v, state_after fn s (Suc k), Suc k)"
    using withDbRetry_settles [OF before le] a by simp
qed

lemma flaky_heap_transient: "isTransientDbError flaky_heap (ErrorRef a) 0 \<longleftrightarrow> a \<noteq> 2"
proof -
  have c: "has_transient_code (flaky_heap a) \<longleftrightarrow> a \<noteq> 2" for a
    by (simp add: has_transient_code_iff flaky_heap_def set_TRANSIENT_PG_CODES)
  have m: "\<not> has_transient_message (flaky_heap a)" for a
    by (simp add: has_transient_message_def flaky_heap_def TRANSIENT_ERROR_PATTERNS_def)
  have t: "\<not> truthy (cause (flaky_heap a))" for a
    by (simp add: flaky_heap_def)
  show ?thesis
    by (subst isTransientDbError.simps) (simp add: c m t MAX_CAUSE_DEPTH_def)
qed

lemma state_after_flaky: "state_after (flaky n) s k = s + k"
  by (induction k arbitrary: s) (simp_all add: flaky_def)

lemma rejects_transient_flaky:
  "rejects_transient flaky_heap (flaky n) s \<longleftrightarrow> s < n \<and> s \<noteq> 2"
  by (simp add: rejects_transient_def flaky_def flaky_heap_transient)

theorem withDbRetry_attempts_witness:
  "withDbRetry flaky_heap (flaky 10) (Some 1) 0 = (Rethrown (ErrorRef 1), 2, 2)
   \<and> withDbRetry flaky_heap (flaky 10) (Some 1) 2 = (Rethrown (ErrorRef 2), 3, 1)
   \<and> withDbRetry flaky_heap (flaky 1) (Some 3) 0 = (Returned 1, 2, 2)"
proof -
  have n1: "0 \<le> (1::int)" and n3: "0 \<le> (3::int)" by simp_all
  note A = withDbRetry_attempts [OF n1, of flaky_heap "flaky 10" 0, THEN conjunct1, THEN mp]
  note B = withDbRetry_attempts [OF n1, of flaky_heap "flaky 10" 2, THEN conjunct2, THEN conjunct1,
      rule_format]
  note C = withDbRetry_attempts [OF n3, of flaky_heap "flaky 1" 0, THEN conjunct2, THEN conjunct2,
      THEN conjunct2, rule_format]
  have "\<forall>k\<le>nat 1. rejects_transient flaky_heap (flaky 10) (state_after (flaky 10) 0 k)"
    by (simp add: state_after_flaky rejects_transient_flaky)
  then have "\<exists>e. fst (flaky 10 (state_after (flaky 10) 0 (nat 1))) = Rejected e \<and>
     withDbRetry flaky_heap (flaky 10) (Some 1) 0 =
       (Rethrown e, state_after (flaky 10) 0 (nat 1 + 1), nat 1 + 1)"
    by (rule A)
  then have a: "withDbRetry flaky_heap (flaky 10) (Some 1) 0 = (Rethrown (ErrorRef 1), 2, 2)"
    by (auto simp: state_after_flaky flaky_def)
  have "fst (flaky 10 2) = Rejected (ErrorRef 2) \<and> \<not> isTransientDbError flaky_heap (ErrorRef 2) 0"
    by (simp add: flaky_def flaky_heap_transient)
  then have "withDbRetry flaky_heap (flaky 10) (Some 1) 2 = (Rethrown (ErrorRef 2), snd (flaky 10 2), 1)"
    by (rule B)
  then have b: "withDbRetry flaky_heap (flaky 10) (Some 1) 2 = (Rethrown (ErrorRef 2), 3, 1)"
    by (simp add: flaky_def)
  have "int 1 \<le> 3 \<and> (\<forall>j<1. rejects_transient flaky_heap (flaky 1) (state_after (flaky 1) 0 j)) \<and>
        fst (flaky 1 (state_after (flaky 1) 0 1)) = Fulfilled 1"
    by (simp add: state_after_flaky rejects_transient_flaky flaky_def)
  then have "withDbRetry flaky_heap (flaky 1) (Some 3) 0 =
      (Returned 1, state_after (flaky 1) 0 (Suc 1), Suc 1)"
    by (rule C)
  then have c: "withDbRetry flaky_heap (flaky 1) (Some 3) 0 = (Returned 1, 2, 2)"
    by (simp add: flaky_def)
  show ?thesis using a b c by blast
qed

section \<open>Properties of the model classes\<close>

text \<open>
  Claim C6. \<open>checkIfChatIsTrusted(c)\<close> is true exactly when no interaction of chat
  \<open>c\<close> has \<open>trusted = false\<close>. It is true for a chat with no interactions, and one
  interaction of the chat with \<open>trusted = false\<close> makes it false, whatever the role of
  that interaction and whether it is blocked or not.
\<close>

theorem checkIfChatIsTrusted_iff:
  "(checkIfChatIsTrusted interactionsTable c \<longleftrightarrow>
      \<not> (\<exists>r\<in>set interactionsTable. chatId r = c \<and> trusted r = Some False))
   \<and> ((\<forall>r. r \<in> set interactionsTable \<longrightarrow> chatId r \<noteq> c) \<longrightarrow>
        checkIfChatIsTrusted interactionsTable c)
   \<and> (\<forall>r role b. r \<in> set interactionsTable \<and> chatId r = c \<and> trusted r = Some False \<and>
        content_role r = role \<and> blocked r = b \<longrightarrow> \<not> checkIfChatIsTrusted interactionsTable c)"
proof -
  have main: "checkIfChatIsTrusted interactionsTable c \<longleftrightarrow>
      \<not> (\<exists>r\<in>set interactionsTable. chatId r = c \<and> trusted r = Some False)"
    by (auto simp: checkIfChatIsTrusted_def filter_empty_conv)
  show ?thesis unfolding main by blast
qed

theorem checkIfChatIsTrusted_iff_witness:
  "\<not> checkIfChatIsTrusted chat_rows ''c1''
   \<and> checkIfChatIsTrusted chat_rows ''c2''
   \<and> checkIfChatIsTrusted chat_rows ''c3''
   \<and> checkIfChatIsTrusted [] ''c1''"
proof -
  note T = checkIfChatIsTrusted_iff [THEN conjunct1]
  have a: "\<not> checkIfChatIsTrusted chat_rows ''c1''"
    unfolding T by (simp add: chat_rows_def)
  have b: "checkIfChatIsTrusted chat_rows ''c2''"
    unfolding T by (simp add: chat_rows_def)
  have c: "checkIfChatIsTrusted chat_rows ''c3''"
    unfolding T by (simp add: chat_rows_def)
  have d: "checkIfChatIsTrusted [] ''c1''"
    unfolding T by simp
  show ?thesis using a b c d by blast
qed

lemma findById_none:
  assumes "\<not> (\<exists>r\<in>set table. sso_id r = p \<and> organizationId r = Some org)"
  shows "findById JSON_parse p org table = Inr None"
proof -
  have "filter (id_and_org p org) table = []"
    using assms by (auto simp: filter_empty_conv id_and_org_def)
  then show ?thesis by (simp add: findById_def)
qed

text \<open>
  Claim C5. \<open>findAllPublic()\<close> returns one object per provider row, made of the row's
  \<open>id\<close> and \<open>providerId\<close> and of nothing else: two tables that agree on these two
  columns give the same result, whatever their issuers, domains, organizations and
  configuration blobs. When no row has both the id \<open>p\<close> and the organization \<open>org\<close>,
  \<open>findById(p, org)\<close> returns null, \<open>update(p, data, org)\<close> returns null and leaves
  the table as it was, and \<open>delete(p, org)\<close> returns false and leaves the table as it was.
\<close>

theorem sso_provider_tenant_isolation:
  fixes table :: "sso_provider_row list"
  shows "length (findAllPublic table) = length table
   \<and> (\<forall>n. n < length table \<longrightarrow>
         findAllPublic table ! n = \<lparr>public_id = sso_id (table ! n), public_providerId = providerId (table ! n)\<rparr>)
   \<and> (\<forall>table' :: sso_provider_row list. map sso_id table' = map sso_id table \<and> map providerId table' = map providerId table \<longrightarrow>
         findAllPublic table' = findAllPublic table)
   \<and> (\<forall>p org d. \<not> (\<exists>r\<in>set table. sso_id r = p \<and> organizationId r = Some org) \<longrightarrow>
         findById JSON_parse p org table = Inr None
         \<and> sso_update JSON_parse p d org table = (Inr None, table)
         \<and> sso_delete JSON_parse p org table = (Inr False, table))"
proof (intro conjI allI impI)
  show "length (findAllPublic table) = length table"
    by (simp add: findAllPublic_def)
next
  fix n assume "n < length table"
  then show "findAllPublic table ! n =
      \<lparr>public_id = sso_id (table ! n), public_providerId = providerId (table ! n)\<rparr>"
    by (simp add: findAllPublic_def)
next
  fix table' :: "sso_provider_row list"
  assume a: "map sso_id table' = map sso_id table \<and> map providerId table' = map providerId table"
  have "findAllPublic t = map (\<lambda>(i, p). \<lparr>public_id = i, public_providerId = p\<rparr>)
          (zip (map sso_id t) (map providerId t))" for t :: "sso_provider_row list"
    by (induction t) (simp_all add: findAllPublic_def)
  then show "findAllPublic table' = findAllPublic table" using a by simp
next
  fix p org d
  assume a: "\<not> (\<exists>r\<in>set table. sso_id r = p \<and> organizationId r = Some org)"
  show "findById JSON_parse p org table = Inr None"
    using a by (rule findById_none)
  show "sso_update JSON_parse p d org table = (Inr None, table)"
    by (simp add: sso_update_def findById_none [OF a])
  show "sso_delete JSON_parse p org table = (Inr False, table)"
    by (simp add: sso_delete_def findById_none [OF a])
qed

theorem sso_provider_tenant_isolation_witness:
  "findAllPublic [okta_row, orphan_row] =
     [\<lparr>public_id = ''p1'', public_providerId = ''okta''\<rparr>,
      \<lparr>public_id = ''p2'', public_providerId = ''saml''\<rparr>]
   \<and> findById Some ''p1'' ''org-b'' [okta_row, orphan_row] = Inr None
   \<and> sso_update Some ''p1'' \<lparr>set_id = None, set_issuer = Some ''https://evil.example'',
        set_oidcConfig = None, set_samlConfig = None, set_userId = None, set_providerId = None,
        set_organizationId = None, set_domain = None\<rparr> ''org-b'' [okta_row, orphan_row]
       = (Inr None, [okta_row, orphan_row])
   \<and> sso_delete Some ''p2'' ''org-a'' [okta_row, orphan_row] = (Inr False, [okta_row, orphan_row])"
proof -
  note T = sso_provider_tenant_isolation [of "[okta_row, orphan_row]" Some]
  have a: "findAllPublic [okta_row, orphan_row] =
     [\<lparr>public_id = ''p1'', public_providerId = ''okta''\<rparr>,
      \<lparr>public_id = ''p2'', public_providerId = ''saml''\<rparr>]"
    by (simp add: findAllPublic_def okta_row_def orphan_row_def)
  have n1: "\<not> (\<exists>r\<in>set [okta_row, orphan_row]. sso_id r = ''p1'' \<and> organizationId r = Some ''org-b'')"
    by (simp add: okta_row_def orphan_row_def)
  have n2: "\<not> (\<exists>r\<in>set [okta_row, orphan_row]. sso_id r = ''p2'' \<and> organizationId r = Some ''org-a'')"
    by (simp add: okta_row_def orphan_row_def)
  note I = T [THEN conjunct2, THEN conjunct2, THEN conjunct2, rule_format]
  show ?thesis using a I [OF n1] I [OF n2] by blast
qed

section \<open>Properties of the organization routes\<close>

lemma maxSize_threshold: "real n > maxSize \<longleftrightarrow> n > 2789212"
proof -
  have "real n > maxSize \<longleftrightarrow> real (25 * n) > real 69730304"
    by (simp add: maxSize_def mult.commute)
  also have "\<dots> \<longleftrightarrow> 25 * n > 69730304"
    by (simp only: of_nat_less_iff)
  also have "\<dots> \<longleftrightarrow> n > 2789212" by arith
  finally show ?thesis .
qed

lemma maxSize_literal: "maxSize = 2.66 * 1024 * 1024"
  by (simp add: maxSize_def)

lemma length_PNG_PREFIX: "length PNG_PREFIX = 22"
  by (simp add: PNG_PREFIX_def)

lemma length_oversized_logo: "length oversized_logo = 2789213"
  by (simp only: oversized_logo_def length_append length_replicate length_PNG_PREFIX)

lemma length_largest_logo: "length largest_logo = 2789212"
  by (simp only: largest_logo_def length_append length_replicate length_PNG_PREFIX)

lemma startsWith_oversized_logo: "startsWith oversized_logo PNG_PREFIX"
  unfolding startsWith_iff oversized_logo_def by blast

lemma startsWith_largest_logo: "startsWith largest_logo PNG_PREFIX"
  unfolding startsWith_iff largest_logo_def by blast

lemma largest_logo_nonempty: "largest_logo \<noteq> []"
  using length_largest_logo by auto

lemma startsWith_PNG: "startsWith l PNG_PREFIX \<longleftrightarrow> (\<exists>rest. l = ''data:image/png;base64,'' @ rest)"
  unfolding startsWith_iff PNG_PREFIX_def ..

lemma patch_rejects:
  assumes "patch_logo body = Some (Some l)" "l \<noteq> []"
    and "\<not> startsWith l PNG_PREFIX \<or> real (length l) > maxSize"
  shows "\<exists>m. organization_patch i body table = (Inl (ThrownError m), table)
          \<and> patch_organization_route i body table = ((500, ErrorEnvelope m ''api_error''), table)"
proof (cases "startsWith l PNG_PREFIX")
  case False
  then have "organization_patch i body table =
      (Inl (ThrownError ''Logo must be a PNG image in base64 format''), table)"
    using assms(1,2) by (simp add: organization_patch_def)
  then show ?thesis
    by (simp add: patch_organization_route_def error_message_def)
next
  case True
  then have "real (length l) > maxSize" using assms(3) by blast
  then have "organization_patch i body table = (Inl (ThrownError ''Logo must be less than 2MB''), table)"
    using assms(1,2) True by (simp add: organization_patch_def)
  then show ?thesis
    by (simp add: patch_organization_route_def error_message_def)
qed

lemma patch_no_validation:
  assumes "patch_logo body = None \<or> patch_logo body = Some None"
  shows "organization_patch i body table = update_organization i body table"
  using assms by (auto simp: organization_patch_def)

lemma set_organization_no_values: "no_values body \<Longrightarrow> set_organization body r = r"
  by (simp add: set_organization_def or_keep_def no_values_def)

lemma update_organization_table:
  "snd (update_organization i body table) =
     map (\<lambda>r. if org_id r = i then set_organization body r else r) table"
proof (cases "no_values body")
  case True
  then have "(\<lambda>r. if org_id r = i then set_organization body r else r) = (\<lambda>r. r)"
    by (auto simp: set_organization_no_values)
  then have "map (\<lambda>r. if org_id r = i then set_organization body r else r) table = table"
    by simp
  then show ?thesis using True by (simp add: update_organization_def)
next
  case False
  then show ?thesis by (simp add: update_organization_def Let_def split: list.splits)
qed

lemma set_organization_logo:
  "logo (set_organization body r) = (case patch_logo body of None \<Rightarrow> logo r | Some v \<Rightarrow> v)"
  by (simp add: set_organization_def or_keep_def)

text \<open>
  Claim C9. A \<open>PATCH /api/organization\<close> whose body has a non-empty logo string that
  lacks the prefix \<open>data:image/png;base64,\<close> or is longer than \<open>2.66 * 1024 * 1024\<close>
  characters makes \<open>OrganizationModel.patch\<close> throw with the table as it was, and the
  route answers 500 with the type \<open>api_error\<close> and the message of the error, the table
  still as it was. A logo that is null or absent is not validated: the method goes
  straight to the update statement, which sets the logo column of the organization to
  null for a null logo and leaves it as it is for an absent one.
\<close>

theorem patch_organization_logo:
  "(\<forall>l. patch_logo body = Some (Some l) \<and> l \<noteq> [] \<and>
         (\<not> (\<exists>rest. l = ''data:image/png;base64,'' @ rest) \<or> real (length l) > 2.66 * 1024 * 1024) \<longrightarrow>
       (\<exists>m. organization_patch i body table = (Inl (ThrownError m), table)
            \<and> patch_organization_route i body table = ((500, ErrorEnvelope m ''api_error''), table)))
   \<and> (patch_logo body = None \<or> patch_logo body = Some None \<longrightarrow>
        organization_patch i body table = update_organization i body table
        \<and> snd (organization_patch i body table) =
            map (\<lambda>r. if org_id r = i then set_organization body r else r) table
        \<and> (\<forall>r. logo (set_organization body r) =
              (if patch_logo body = Some None then None else logo r)))"
proof (intro conjI allI impI)
  fix l
  assume a: "patch_logo body = Some (Some l) \<and> l \<noteq> [] \<and>
         (\<not> (\<exists>rest. l = ''data:image/png;base64,'' @ rest) \<or> real (length l) > 2.66 * 1024 * 1024)"
  then have "\<not> startsWith l PNG_PREFIX \<or> real (length l) > maxSize"
    unfolding startsWith_PNG maxSize_literal by blast
  then show "\<exists>m. organization_patch i body table = (Inl (ThrownError m), table)
            \<and> patch_organization_route i body table = ((500, ErrorEnvelope m ''api_error''), table)"
    using a patch_rejects by blast
next
  assume "patch_logo body = None \<or> patch_logo body = Some None"
  then show "organization_patch i body table = update_organization i body table"
    by (rule patch_no_validation)
next
  assume "patch_logo body = None \<or> patch_logo body = Some None"
  then show "snd (organization_patch i body table) =
            map (\<lambda>r. if org_id r = i then set_organization body r else r) table"
    by (simp add: patch_no_validation update_organization_table)
next
  fix r
  assume "patch_logo body = None \<or> patch_logo body = Some None"
  then show "logo (set_organization body r) = (if patch_logo body = Some None then None else logo r)"
    by (auto simp: set_organization_logo)
qed

theorem patch_organization_logo_witness:
  "patch_organization_route ''org-a''
       \<lparr>patch_theme = None, patch_customFont = None, patch_limitCleanupInterval = None,
        patch_logo = Some (Some ''data:image/jpeg;base64,AAAA'')\<rparr> [acme]
     = ((500, ErrorEnvelope ''Logo must be a PNG image in base64 format'' ''api_error''), [acme])
   \<and> patch_organization_route ''org-a''
       \<lparr>patch_theme = None, patch_customFont = None, patch_limitCleanupInterval = None,
        patch_logo = Some (Some oversized_logo)\<rparr> [acme]
     = ((500, ErrorEnvelope ''Logo must be less than 2MB'' ''api_error''), [acme])
   \<and> patch_organization_route ''org-a''
       \<lparr>patch_theme = None, patch_customFont = None, patch_limitCleanupInterval = None,
        patch_logo = Some None\<rparr> [acme]
     = ((200, Payload (acme\<lparr>logo := None\<rparr>)), [acme\<lparr>logo := None\<rparr>])"
proof -
  let ?jpeg = "\<lparr>patch_theme = None, patch_customFont = None, patch_limitCleanupInterval = None,
        patch_logo = Some (Some ''data:image/jpeg;base64,AAAA'')\<rparr>"
  let ?big = "\<lparr>patch_theme = None, patch_customFont = None, patch_limitCleanupInterval = None,
        patch_logo = Some (Some oversized_logo)\<rparr>"
  let ?null = "\<lparr>patch_theme = None, patch_customFont = None, patch_limitCleanupInterval = None,
        patch_logo = Some None\<rparr>"
  note R = patch_organization_logo [THEN conjunct1, rule_format]
  have j: "patch_logo ?jpeg = Some (Some ''data:image/jpeg;base64,AAAA'') \<and> ''data:image/jpeg;base64,AAAA'' \<noteq> [] \<and>
         (\<not> (\<exists>rest. ''data:image/jpeg;base64,AAAA'' = ''data:image/png;base64,'' @ rest) \<or>
          real (length ''data:image/jpeg;base64,AAAA'') > 2.66 * 1024 * 1024)"
    by simp
  obtain m where m: "organization_patch ''org-a'' ?jpeg [acme] = (Inl (ThrownError m), [acme])"
      "patch_organization_route ''org-a'' ?jpeg [acme] = ((500, ErrorEnvelope m ''api_error''), [acme])"
    using R [OF j] by blast
  have "\<not> startsWith ''data:image/jpeg;base64,AAAA'' PNG_PREFIX"
    by (simp add: PNG_PREFIX_def)
  then have "organization_patch ''org-a'' ?jpeg [acme] =
      (Inl (ThrownError ''Logo must be a PNG image in base64 format''), [acme])"
    by (simp add: organization_patch_def)
  then have a: "patch_organization_route ''org-a'' ?jpeg [acme]
     = ((500, ErrorEnvelope ''Logo must be a PNG image in base64 format'' ''api_error''), [acme])"
    using m by simp
  have big: "real (length oversized_logo) > maxSize"
    by (simp add: length_oversized_logo maxSize_def)
  have ne: "oversized_logo \<noteq> []" using length_oversized_logo by auto
  have "organization_patch ''org-a'' ?big [acme] = (Inl (ThrownError ''Logo must be less than 2MB''), [acme])"
    using big ne startsWith_oversized_logo by (simp add: organization_patch_def)
  then have b: "patch_organization_route ''org-a'' ?big [acme]
     = ((500, ErrorEnvelope ''Logo must be less than 2MB'' ''api_error''), [acme])"
    by (simp add: patch_organization_route_def error_message_def)
  have c: "patch_organization_route ''org-a'' ?null [acme]
     = ((200, Payload (acme\<lparr>logo := None\<rparr>)), [acme\<lparr>logo := None\<rparr>])"
    by (simp add: patch_organization_route_def organization_patch_def update_organization_def
        no_values_def set_organization_def or_keep_def acme_def)
  show ?thesis using a b c by blast
qed

lemma starts_with_prefix_nonempty: "startsWith l PNG_PREFIX \<Longrightarrow> l \<noteq> []"
  by (auto simp: PNG_PREFIX_def)

lemma upload_stored:
  assumes user: "getUserFromRequest = Inr (Some user)" "isAdmin user"
    and contract: "stores_appearance updateAppearance"
    and ok: "startsWith l PNG_PREFIX" "\<not> real (length l) > maxSize"
    and g: "getOrCreateDefaultOrganization now table = (org, org # rest)"
  shows "\<exists>f. (\<forall>x. org_id (f x) = org_id x \<and> logo (f x) = Some l) \<and>
     upload_logo_route getUserFromRequest updateAppearance now l table =
       ((200, Payload \<lparr>success = True, reply_logo = Some l\<rparr>),
        map (\<lambda>x. if org_id x = org_id org then f x else x) (org # rest))"
proof -
  let ?u = "\<lparr>set_logo = Some l, set_logoType = ''custom''\<rparr>"
  from contract obtain f where
    f: "\<forall>r. org_id (f r) = org_id r \<and> logo (f r) = set_logo ?u"
    and u: "updateAppearance (org # rest) (org_id org) ?u =
          (Inr (case filter (\<lambda>r. org_id r = org_id org) (org # rest) of
                  [] \<Rightarrow> None | r # _ \<Rightarrow> Some (f r)),
           map (\<lambda>r. if org_id r = org_id org then f r else r) (org # rest))"
    unfolding stores_appearance_def by blast
  have fl: "\<forall>x. org_id (f x) = org_id x \<and> logo (f x) = Some l" using f by simp
  have u': "updateAppearance (org # rest) (org_id org) ?u =
          (Inr (Some (f org)), map (\<lambda>r. if org_id r = org_id org then f r else r) (org # rest))"
    using u by simp
  have ne: "l \<noteq> []" using ok(1) by (rule starts_with_prefix_nonempty)
  have lg: "logo_or_null (logo (f org)) = Some l"
    using fl ne by (simp add: logo_or_null_def)
  have "upload_logo_route getUserFromRequest updateAppearance now l table =
       ((200, Payload \<lparr>success = True, reply_logo = Some l\<rparr>),
        map (\<lambda>x. if org_id x = org_id org then f x else x) (org # rest))"
    using user ok by (simp add: upload_logo_route_def g u' lg)
  then show ?thesis using fl by blast
qed

lemma default_organization_created:
  "getOrCreateDefaultOrganization now [] =
     (\<lparr>org_id = ''default-org'', org_name = ''Default Organization'', slug = ''default'',
       logo = None, createdAt = now, metadata = None, limitCleanupInterval = Some ''1h'',
       theme = ''cosmic-night'', customFont = ''lato''\<rparr>,
      \<lparr>org_id = ''default-org'', org_name = ''Default Organization'', slug = ''default'',
       logo = None, createdAt = now, metadata = None, limitCleanupInterval = Some ''1h'',
       theme = ''cosmic-night'', customFont = ''lato''\<rparr> # [])"
  by (simp add: getOrCreateDefaultOrganization_def Let_def)

lemma default_organization_existing:
  "getOrCreateDefaultOrganization now (r # rs) = (r, r # rs)"
  by (simp add: getOrCreateDefaultOrganization_def)

text \<open>
  Claim C8. For a call of \<open>POST /api/organization/logo\<close> by an authenticated admin: a
  logo without the prefix \<open>data:image/png;base64,\<close>, or longer than
  \<open>2.66 * 1024 * 1024\<close> characters, is answered 400 with the type \<open>validation_error\<close>,
  and the table is as it was. A logo with the prefix and within the limit is accepted: it
  is never answered 400, it is handed with the logo type \<open>custom\<close> to
  \<open>updateAppearance\<close> for the default organization, and when that returns the updated
  row the answer is 200 with \<open>success: true\<close> and the stored logo, the table being the
  one \<open>updateAppearance\<close> left. And it is stored: with an \<open>updateAppearance\<close> that sets
  the logo of the rows with the id it is given, the answer is 200 with the uploaded
  logo, and the table afterwards holds the uploaded logo for the default organization,
  which is the first row of the table, or the row with the id \<open>default-org\<close> that the
  handler creates when the table is empty; the rows of other organizations are as they
  were.
\<close>

theorem upload_logo_boundary:
  assumes "getUserFromRequest = Inr (Some user)" and "isAdmin user"
  shows
    "(\<not> (\<exists>rest. l = ''data:image/png;base64,'' @ rest) \<or> real (length l) > 2.66 * 1024 * 1024 \<longrightarrow>
        (\<exists>m. upload_logo_route getUserFromRequest updateAppearance now l table =
           ((400, ErrorEnvelope m ''validation_error''), table)))
     \<and> ((\<exists>rest. l = ''data:image/png;base64,'' @ rest) \<and> real (length l) \<le> 2.66 * 1024 * 1024 \<longrightarrow>
        fst (fst (upload_logo_route getUserFromRequest updateAppearance now l table)) \<noteq> 400
        \<and> (\<forall>updatedOrg table2.
              updateAppearance (snd (getOrCreateDefaultOrganization now table))
                (org_id (fst (getOrCreateDefaultOrganization now table)))
                \<lparr>set_logo = Some l, set_logoType = ''custom''\<rparr> = (Inr (Some updatedOrg), table2) \<longrightarrow>
              upload_logo_route getUserFromRequest updateAppearance now l table =
                ((200, Payload \<lparr>success = True, reply_logo = logo_or_null (logo updatedOrg)\<rparr>), table2)))
     \<and> (stores_appearance updateAppearance \<and>
        (\<exists>rest. l = ''data:image/png;base64,'' @ rest) \<and> real (length l) \<le> 2.66 * 1024 * 1024 \<longrightarrow>
        fst (upload_logo_route getUserFromRequest updateAppearance now l table) =
          (200, Payload \<lparr>success = True, reply_logo = Some l\<rparr>)
        \<and> (table = [] \<longrightarrow>
              (\<exists>r. snd (upload_logo_route getUserFromRequest updateAppearance now l table) = [r] \<and>
                   org_id r = ''default-org'' \<and> logo r = Some l))
        \<and> (\<forall>r rs. table = r # rs \<longrightarrow>
              (\<exists>f. (\<forall>x. org_id (f x) = org_id x \<and> logo (f x) = Some l) \<and>
                   snd (upload_logo_route getUserFromRequest updateAppearance now l table) =
                     map (\<lambda>x. if org_id x = org_id r then f x else x) (r # rs))))"
proof (intro conjI allI impI)
  assume "\<not> (\<exists>rest. l = ''data:image/png;base64,'' @ rest) \<or> real (length l) > 2.66 * 1024 * 1024"
  then have bad: "\<not> startsWith l PNG_PREFIX \<or> real (length l) > maxSize"
    unfolding startsWith_PNG maxSize_literal .
  show "\<exists>m. upload_logo_route getUserFromRequest updateAppearance now l table =
           ((400, ErrorEnvelope m ''validation_error''), table)"
  proof (cases "startsWith l PNG_PREFIX")
    case False
    then show ?thesis using assms by (simp add: upload_logo_route_def)
  next
    case True
    then have "real (length l) > maxSize" using bad by blast
    then show ?thesis using assms True by (simp add: upload_logo_route_def)
  qed
next
  assume "(\<exists>rest. l = ''data:image/png;base64,'' @ rest) \<and> real (length l) \<le> 2.66 * 1024 * 1024"
  then have ok: "startsWith l PNG_PREFIX" "\<not> real (length l) > maxSize"
    unfolding startsWith_PNG maxSize_literal by auto
  show "fst (fst (upload_logo_route getUserFromRequest updateAppearance now l table)) \<noteq> 400"
    using assms ok
    by (auto simp: upload_logo_route_def split: prod.splits sum.splits option.splits)
next
  fix updatedOrg table2
  assume "(\<exists>rest. l = ''data:image/png;base64,'' @ rest) \<and> real (length l) \<le> 2.66 * 1024 * 1024"
  then have ok: "startsWith l PNG_PREFIX" "\<not> real (length l) > maxSize"
    unfolding startsWith_PNG maxSize_literal by auto
  assume "updateAppearance (snd (getOrCreateDefaultOrganization now table))
                (org_id (fst (getOrCreateDefaultOrganization now table)))
                \<lparr>set_logo = Some l, set_logoType = ''custom''\<rparr> = (Inr (Some updatedOrg), table2)"
  then show "upload_logo_route getUserFromRequest updateAppearance now l table =
                ((200, Payload \<lparr>success = True, reply_logo = logo_or_null (logo updatedOrg)\<rparr>), table2)"
    using assms ok
    by (auto simp: upload_logo_route_def split: prod.splits)
next
  assume a: "stores_appearance updateAppearance \<and>
        (\<exists>rest. l = ''data:image/png;base64,'' @ rest) \<and> real (length l) \<le> 2.66 * 1024 * 1024"
  then have c: "stores_appearance updateAppearance" by simp
  from a have ok: "startsWith l PNG_PREFIX" "\<not> real (length l) > maxSize"
    unfolding startsWith_PNG maxSize_literal by auto
  show "fst (upload_logo_route getUserFromRequest updateAppearance now l table) =
          (200, Payload \<lparr>success = True, reply_logo = Some l\<rparr>)"
  proof (cases table)
    case Nil
    show ?thesis
      using upload_stored [OF assms c ok default_organization_created, of now] Nil by auto
  next
    case (Cons r rs)
    show ?thesis
      using upload_stored [OF assms c ok default_organization_existing, of now r rs] Cons by auto
  qed
next
  assume a: "stores_appearance updateAppearance \<and>
        (\<exists>rest. l = ''data:image/png;base64,'' @ rest) \<and> real (length l) \<le> 2.66 * 1024 * 1024"
  then have c: "stores_appearance updateAppearance" by simp
  from a have ok: "startsWith l PNG_PREFIX" "\<not> real (length l) > maxSize"
    unfolding startsWith_PNG maxSize_literal by auto
  assume e: "table = []"
  let ?created = "\<lparr>org_id = ''default-org'', org_name = ''Default Organization'', slug = ''default'',
       logo = None, createdAt = now, metadata = None, limitCleanupInterval = Some ''1h'',
       theme = ''cosmic-night'', customFont = ''lato''\<rparr>"
  obtain f where f: "\<forall>x. org_id (f x) = org_id x \<and> logo (f x) = Some l"
    and r: "upload_logo_route getUserFromRequest updateAppearance now l [] =
       ((200, Payload \<lparr>success = True, reply_logo = Some l\<rparr>),
        map (\<lambda>x. if org_id x = org_id ?created then f x else x) (?created # []))"
    using upload_stored [OF assms c ok default_organization_created, of now] by blast
  have "snd (upload_logo_route getUserFromRequest updateAppearance now l table) = [f ?created]"
    unfolding e r by simp
  moreover have "org_id (f ?created) = ''default-org''" using f by simp
  moreover have "logo (f ?created) = Some l" using f by simp
  ultimately show "\<exists>r. snd (upload_logo_route getUserFromRequest updateAppearance now l table) = [r] \<and>
                   org_id r = ''default-org'' \<and> logo r = Some l"
    by blast
next
  fix r rs
  assume a: "stores_appearance updateAppearance \<and>
        (\<exists>rest. l = ''data:image/png;base64,'' @ rest) \<and> real (length l) \<le> 2.66 * 1024 * 1024"
  then have c: "stores_appearance updateAppearance" by simp
  from a have ok: "startsWith l PNG_PREFIX" "\<not> real (length l) > maxSize"
    unfolding startsWith_PNG maxSize_literal by auto
  assume e: "table = r # rs"
  obtain f where f: "\<forall>x. org_id (f x) = org_id x \<and> logo (f x) = Some l"
    and u: "upload_logo_route getUserFromRequest updateAppearance now l (r # rs) =
       ((200, Payload \<lparr>success = True, reply_logo = Some l\<rparr>),
        map (\<lambda>x. if org_id x = org_id r then f x else x) (r # rs))"
    using upload_stored [OF assms c ok default_organization_existing, of now r rs] by blast
  have "snd (upload_logo_route getUserFromRequest updateAppearance now l table) =
      map (\<lambda>x. if org_id x = org_id r then f x else x) (r # rs)"
    unfolding e u by simp
  then show "\<exists>f. (\<forall>x. org_id (f x) = org_id x \<and> logo (f x) = Some l) \<and>
                   snd (upload_logo_route getUserFromRequest updateAppearance now l table) =
                     map (\<lambda>x. if org_id x = org_id r then f x else x) (r # rs)"
    using f by blast
qed

lemma store_logo_stores_appearance: "stores_appearance store_logo"
  unfolding stores_appearance_def
proof (intro allI)
  fix t :: "organization list" and i :: string and u :: appearance_update
  let ?f = "\<lambda>r :: organization. r\<lparr>logo := set_logo u\<rparr>"
  have m: "filter (\<lambda>r. org_id r = i) (map (\<lambda>r. if org_id r = i then ?f r else r) t) =
           map ?f (filter (\<lambda>r. org_id r = i) t)"
    by (induction t) simp_all
  have "store_logo t i u =
      (Inr (case filter (\<lambda>r. org_id r = i) t of [] \<Rightarrow> None | r # _ \<Rightarrow> Some (?f r)),
       map (\<lambda>r. if org_id r = i then ?f r else r) t)"
    unfolding store_logo_def Let_def m
    by (cases "filter (\<lambda>r. org_id r = i) t") simp_all
  moreover have "\<forall>r. org_id (?f r) = org_id r \<and> logo (?f r) = set_logo u" by simp
  ultimately show "\<exists>f. (\<forall>r. org_id (f r) = org_id r \<and> logo (f r) = set_logo u) \<and>
      store_logo t i u =
        (Inr (case filter (\<lambda>r. org_id r = i) t of [] \<Rightarrow> None | r # _ \<Rightarrow> Some (f r)),
         map (\<lambda>r. if org_id r = i then f r else r) t)"
    by blast
qed

theorem upload_logo_boundary_witness:
  "upload_logo_route (Inr (Some admin)) store_logo 0 ''data:image/jpeg;base64,AAAA'' [acme]
     = ((400, ErrorEnvelope ''Logo must be a PNG image in base64 format'' ''validation_error''), [acme])
   \<and> upload_logo_route (Inr (Some admin)) store_logo 0 oversized_logo [acme]
     = ((400, ErrorEnvelope ''Logo must be less than 2MB'' ''validation_error''), [acme])
   \<and> upload_logo_route (Inr (Some admin)) store_logo 0 largest_logo [acme]
     = ((200, Payload \<lparr>success = True, reply_logo = Some largest_logo\<rparr>),
        [acme\<lparr>logo := Some largest_logo\<rparr>])
   \<and> upload_logo_route (Inr (Some admin)) store_logo 7 largest_logo []
     = ((200, Payload \<lparr>success = True, reply_logo = Some largest_logo\<rparr>),
        [\<lparr>org_id = ''default-org'', org_name = ''Default Organization'', slug = ''default'',
          logo = Some largest_logo, createdAt = 7, metadata = None,
          limitCleanupInterval = Some ''1h'', theme = ''cosmic-night'', customFont = ''lato''\<rparr>])"
proof -
  have adm: "isAdmin admin" by (simp add: admin_def)
  note T = upload_logo_boundary [OF refl adm, of _ store_logo]
  have j: "\<not> startsWith ''data:image/jpeg;base64,AAAA'' PNG_PREFIX"
    by (simp add: PNG_PREFIX_def)
  then have "\<not> (\<exists>rest. ''data:image/jpeg;base64,AAAA'' = ''data:image/png;base64,'' @ rest) \<or>
      real (length ''data:image/jpeg;base64,AAAA'') > 2.66 * 1024 * 1024"
    unfolding startsWith_PNG by blast
  then obtain m where m:
    "upload_logo_route (Inr (Some admin)) store_logo 0 ''data:image/jpeg;base64,AAAA'' [acme]
       = ((400, ErrorEnvelope m ''validation_error''), [acme])"
    using T [of _ 0 "[acme]", THEN conjunct1] by blast
  have "upload_logo_route (Inr (Some admin)) store_logo 0 ''data:image/jpeg;base64,AAAA'' [acme]
     = ((400, ErrorEnvelope ''Logo must be a PNG image in base64 format'' ''validation_error''), [acme])"
    using j adm by (simp add: upload_logo_route_def)
  then have a: "upload_logo_route (Inr (Some admin)) store_logo 0 ''data:image/jpeg;base64,AAAA'' [acme]
     = ((400, ErrorEnvelope ''Logo must be a PNG image in base64 format'' ''validation_error''), [acme])"
    using m by simp
  have big: "real (length oversized_logo) > maxSize"
    by (simp add: length_oversized_logo maxSize_def)
  have b: "upload_logo_route (Inr (Some admin)) store_logo 0 oversized_logo [acme]
     = ((400, ErrorEnvelope ''Logo must be less than 2MB'' ''validation_error''), [acme])"
    using big startsWith_oversized_logo adm by (simp add: upload_logo_route_def)
  have fits: "(\<exists>rest. largest_logo = ''data:image/png;base64,'' @ rest) \<and>
      real (length largest_logo) \<le> 2.66 * 1024 * 1024"
    using startsWith_largest_logo unfolding startsWith_PNG
    by (simp add: length_largest_logo)
  have g: "getOrCreateDefaultOrganization 0 [acme] = (acme, [acme])"
    by (simp add: getOrCreateDefaultOrganization_def)
  have st: "store_logo (snd (getOrCreateDefaultOrganization 0 [acme]))
              (org_id (fst (getOrCreateDefaultOrganization 0 [acme])))
              \<lparr>set_logo = Some largest_logo, set_logoType = ''custom''\<rparr>
            = (Inr (Some (acme\<lparr>logo := Some largest_logo\<rparr>)), [acme\<lparr>logo := Some largest_logo\<rparr>])"
    unfolding g by (simp add: store_logo_def)
  have "upload_logo_route (Inr (Some admin)) store_logo 0 largest_logo [acme]
     = ((200, Payload \<lparr>success = True,
           reply_logo = logo_or_null (logo (acme\<lparr>logo := Some largest_logo\<rparr>))\<rparr>),
        [acme\<lparr>logo := Some largest_logo\<rparr>])"
    using T [of largest_logo 0 "[acme]", THEN conjunct2, THEN conjunct1, THEN mp, OF fits,
        THEN conjunct2, rule_format, OF st] .
  then have c: "upload_logo_route (Inr (Some admin)) store_logo 0 largest_logo [acme]
     = ((200, Payload \<lparr>success = True, reply_logo = Some largest_logo\<rparr>),
        [acme\<lparr>logo := Some largest_logo\<rparr>])"
    using largest_logo_nonempty by (simp add: logo_or_null_def)
  have stored: "stores_appearance store_logo \<and>
      (\<exists>rest. largest_logo = ''data:image/png;base64,'' @ rest) \<and>
      real (length largest_logo) \<le> 2.66 * 1024 * 1024"
    using store_logo_stores_appearance fits by blast
  note S = T [of largest_logo 7 "[]", THEN conjunct2, THEN conjunct2, THEN mp, OF stored]
  have reply: "fst (upload_logo_route (Inr (Some admin)) store_logo 7 largest_logo []) =
      (200, Payload \<lparr>success = True, reply_logo = Some largest_logo\<rparr>)"
    using S by blast
  have tbl: "snd (upload_logo_route (Inr (Some admin)) store_logo 7 largest_logo []) =
      [\<lparr>org_id = ''default-org'', org_name = ''Default Organization'', slug = ''default'',
        logo = Some largest_logo, createdAt = 7, metadata = None,
        limitCleanupInterval = Some ''1h'', theme = ''cosmic-night'', customFont = ''lato''\<rparr>]"
    using adm startsWith_largest_logo fits
    by (simp add: upload_logo_route_def maxSize_literal default_organization_created store_logo_def)
  have d: "upload_logo_route (Inr (Some admin)) store_logo 7 largest_logo []
     = ((200, Payload \<lparr>success = True, reply_logo = Some largest_logo\<rparr>),
        [\<lparr>org_id = ''default-org'', org_name = ''Default Organization'', slug = ''default'',
          logo = Some largest_logo, createdAt = 7, metadata = None,
          limitCleanupInterval = Some ''1h'', theme = ''cosmic-night'', customFont = ''lato''\<rparr>])"
    using reply tbl by (simp add: prod_eq_iff)
  show ?thesis using a b c d by blast
qed

section \<open>Properties of the A2A routes\<close>

text \<open>
  Claim C10. In the agent card handler the prompt and agent lookups come before the
  token check: when the prompt lookup finds nothing, the handler throws the 404
  \<open>Prompt not found\<close>, with or without an Authorization header; and it throws a 401 only
  when the prompt and its agent were both found.
\<close>

theorem agent_card_lookup_before_auth:
  "(PromptModel_findById env (card_promptId request) = Inr None \<longrightarrow>
      get_agent_card endpoint env request = ThrowApiError 404 ''Prompt not found''
      \<and> get_agent_card endpoint env (request\<lparr>card_bearer := None\<rparr>) = ThrowApiError 404 ''Prompt not found'')
   \<and> (\<forall>m. get_agent_card endpoint env request = ThrowApiError 401 m \<longrightarrow>
        (\<exists>p a. PromptModel_findById env (card_promptId request) = Inr (Some p) \<and>
               AgentModel_findById env (agentId p) = Inr (Some a)))"
proof (intro conjI allI impI)
  assume "PromptModel_findById env (card_promptId request) = Inr None"
  then show "get_agent_card endpoint env request = ThrowApiError 404 ''Prompt not found''"
    and "get_agent_card endpoint env (request\<lparr>card_bearer := None\<rparr>) = ThrowApiError 404 ''Prompt not found''"
    by (simp_all add: get_agent_card_def)
next
  fix m
  assume a: "get_agent_card endpoint env request = ThrowApiError 401 m"
  show "\<exists>p a. PromptModel_findById env (card_promptId request) = Inr (Some p) \<and>
               AgentModel_findById env (agentId p) = Inr (Some a)"
  proof (cases "PromptModel_findById env (card_promptId request)")
    case (Inl e)
    then show ?thesis using a by (simp add: get_agent_card_def)
  next
    case (Inr po)
    show ?thesis
    proof (cases po)
      case None
      then show ?thesis using a Inr by (simp add: get_agent_card_def)
    next
      case (Some p)
      show ?thesis
      proof (cases "AgentModel_findById env (agentId p)")
        case (Inl e)
        then show ?thesis using a Inr Some by (simp add: get_agent_card_def)
      next
        case ar: (Inr ao)
        show ?thesis
        proof (cases ao)
          case None
          then show ?thesis using a Inr Some ar by (simp add: get_agent_card_def)
        next
          case sa: (Some ag)
          then show ?thesis using Inr Some ar by blast
        qed
      qed
    qed
  qed
qed

theorem agent_card_lookup_before_auth_witness:
  "get_agent_card ''/v1/a2a'' demo_env
       \<lparr>card_promptId = ''missing'', card_bearer = None, x_forwarded_proto = None, host = None\<rparr>
     = ThrowApiError 404 ''Prompt not found''
   \<and> get_agent_card ''/v1/a2a'' demo_env
       \<lparr>card_promptId = ''missing'', card_bearer = Some ''good-token'', x_forwarded_proto = None, host = None\<rparr>
     = ThrowApiError 404 ''Prompt not found''
   \<and> get_agent_card ''/v1/a2a'' demo_env
       \<lparr>card_promptId = ''prompt-1'', card_bearer = None, x_forwarded_proto = None, host = None\<rparr>
     = ThrowApiError 401 ''Authorization header required. Use: Bearer <archestra_token>''"
proof -
  let ?anon = "\<lparr>card_promptId = ''missing'', card_bearer = None, x_forwarded_proto = None, host = None\<rparr>"
  let ?tok = "\<lparr>card_promptId = ''missing'', card_bearer = Some ''good-token'',
                x_forwarded_proto = None, host = None\<rparr>"
  have n: "PromptModel_findById demo_env (card_promptId ?tok) = Inr None"
    by (simp add: demo_env_def)
  note T = agent_card_lookup_before_auth [of demo_env ?tok "''/v1/a2a''", THEN conjunct1, THEN mp, OF n]
  have a: "get_agent_card ''/v1/a2a'' demo_env ?anon = ThrowApiError 404 ''Prompt not found''"
    using T by simp
  have b: "get_agent_card ''/v1/a2a'' demo_env ?tok = ThrowApiError 404 ''Prompt not found''"
    using T by simp
  have c: "get_agent_card ''/v1/a2a'' demo_env
       \<lparr>card_promptId = ''prompt-1'', card_bearer = None, x_forwarded_proto = None, host = None\<rparr>
     = ThrowApiError 401 ''Authorization header required. Use: Bearer <archestra_token>''"
    by (simp add: get_agent_card_def demo_env_def demo_prompt_def demo_agent_def truthy_string_def)
  show ?thesis using a b c by blast
qed

lemma after_auth_replies_200:
  "\<exists>resp. after_auth env request p a uid orgId = Reply 200 resp \<and> jsonrpc resp = ''2.0'' \<and>
          response_id resp = request_id (rpc_body request)"
  by (cases "run_execution env p a uid orgId (userMessage_of (rpc_body request))")
    (simp_all add: after_auth_def rpc_error_def Let_def)

lemma rpc_error_is_200:
  "\<exists>resp. rpc_error i c m = Reply 200 resp \<and> jsonrpc resp = ''2.0'' \<and> response_id resp = i"
  by (simp add: rpc_error_def)

lemma a2a_execute_authenticated:
  assumes "authenticated env request p a uid orgId"
  shows "a2a_execute env request = after_auth env request p a uid orgId"
proof -
  from assms obtain t tokenAuth where
    f: "PromptModel_findById env (exec_promptId request) = Inr (Some p)"
    and g: "AgentModel_findById env (agentId p) = Inr (Some a)"
    and b: "exec_bearer request = Some t" "t \<noteq> []"
    and v: "validateMCPGatewayToken env (agent_id a) t = Inr (Some tokenAuth)"
    and o: "orgId = auth_organizationId tokenAuth"
    and u: "(\<exists>u user. auth_userId tokenAuth = Some u \<and> u \<noteq> [] \<and> uid = u \<and>
              UserModel_getById env u = Inr (Some user))
            \<or> (\<not> truthy_string (auth_userId tokenAuth) \<and> uid = ''system'')"
    unfolding authenticated_def by blast
  have tb: "truthy_string (exec_bearer request)" using b by (simp add: truthy_string_def)
  from u show ?thesis
  proof
    assume "\<exists>u user. auth_userId tokenAuth = Some u \<and> u \<noteq> [] \<and> uid = u \<and>
              UserModel_getById env u = Inr (Some user)"
    then obtain user where "auth_userId tokenAuth = Some uid" "uid \<noteq> []"
        "UserModel_getById env uid = Inr (Some user)" by blast
    then show ?thesis using f g b v o tb
      by (simp add: a2a_execute_def truthy_string_def)
  next
    assume "\<not> truthy_string (auth_userId tokenAuth) \<and> uid = ''system''"
    then show ?thesis using f g b v o tb
      by (simp add: a2a_execute_def)
  qed
qed

lemma a2a_execute_always_200:
  assumes "lookups_return env"
  shows "\<exists>resp. a2a_execute env request = Reply 200 resp \<and> jsonrpc resp = ''2.0'' \<and>
           response_id resp = request_id (rpc_body request)"
proof -
  let ?i = "request_id (rpc_body request)"
  from assms obtain po where f: "PromptModel_findById env (exec_promptId request) = Inr po"
    unfolding lookups_return_def by blast
  show ?thesis
  proof (cases po)
    case None
    then show ?thesis using f rpc_error_is_200 [of ?i] by (simp add: a2a_execute_def)
  next
    case (Some p)
    from assms obtain ao where g: "AgentModel_findById env (agentId p) = Inr ao"
      unfolding lookups_return_def by blast
    show ?thesis
    proof (cases ao)
      case None
      then show ?thesis using f Some g rpc_error_is_200 [of ?i] by (simp add: a2a_execute_def)
    next
      case sa: (Some a)
      show ?thesis
      proof (cases "truthy_string (exec_bearer request)")
        case False
        then show ?thesis using f Some g sa rpc_error_is_200 [of ?i] by (simp add: a2a_execute_def)
      next
        case tb: True
        from assms obtain vo where
          v: "validateMCPGatewayToken env (agent_id a) (the (exec_bearer request)) = Inr vo"
          unfolding lookups_return_def by blast
        show ?thesis
        proof (cases vo)
          case None
          then show ?thesis using f Some g sa tb v rpc_error_is_200 [of ?i]
            by (simp add: a2a_execute_def)
        next
          case sv: (Some tokenAuth)
          show ?thesis
          proof (cases "truthy_string (auth_userId tokenAuth)")
            case False
            then show ?thesis
              using f Some g sa tb v sv
                after_auth_replies_200 [of env request p a "''system''" "auth_organizationId tokenAuth"]
              by (simp add: a2a_execute_def)
          next
            case tu: True
            from assms obtain uo where
              u: "UserModel_getById env (the (auth_userId tokenAuth)) = Inr uo"
              unfolding lookups_return_def by blast
            show ?thesis
            proof (cases uo)
              case None
              then show ?thesis using f Some g sa tb v sv tu u rpc_error_is_200 [of ?i]
                by (simp add: a2a_execute_def)
            next
              case su: (Some user)
              then show ?thesis
                using f Some g sa tb v sv tu u
                  after_auth_replies_200 [of env request p a "the (auth_userId tokenAuth)"
                    "auth_organizationId tokenAuth"]
                by (simp add: a2a_execute_def)
            qed
          qed
        qed
      qed
    qed
  qed
qed

text \<open>
  Claim C7, as the code has it. When none of the lookups made before the \<open>try\<close> block
  throws, the handler replies with status 200 and a JSON-RPC envelope that repeats the
  id of the request. The checks are made in a fixed order and the first that fails
  decides the reply: prompt not found (-32602), agent not found (-32602), bearer token
  missing (-32600), token not valid for the agent (-32600), user of the token not found
  (-32600), empty message text (-32602), and an exception during the execution
  (-32603). When all pass, the reply carries a result message with the role \<open>agent\<close>
  and one text part, the final text.
\<close>

theorem a2a_execute_reply_codes:
  "(lookups_return env \<longrightarrow>
      (\<exists>resp. a2a_execute env request = Reply 200 resp \<and> jsonrpc resp = ''2.0'' \<and>
         response_id resp = request_id (rpc_body request)))
   \<and> (PromptModel_findById env (exec_promptId request) = Inr None \<longrightarrow>
        a2a_execute env request =
          rpc_error (request_id (rpc_body request)) (- 32602) ''Prompt not found'')
   \<and> (\<forall>p. PromptModel_findById env (exec_promptId request) = Inr (Some p) \<and>
          AgentModel_findById env (agentId p) = Inr None \<longrightarrow>
        a2a_execute env request =
          rpc_error (request_id (rpc_body request)) (- 32602) ''Agent not found for prompt'')
   \<and> (\<forall>p a. PromptModel_findById env (exec_promptId request) = Inr (Some p) \<and>
          AgentModel_findById env (agentId p) = Inr (Some a) \<and>
          \<not> truthy_string (exec_bearer request) \<longrightarrow>
        a2a_execute env request =
          rpc_error (request_id (rpc_body request)) (- 32600)
            ''Authorization header required. Use: Bearer <archestra_token>'')
   \<and> (\<forall>p a t. PromptModel_findById env (exec_promptId request) = Inr (Some p) \<and>
          AgentModel_findById env (agentId p) = Inr (Some a) \<and>
          exec_bearer request = Some t \<and> t \<noteq> [] \<and>
          validateMCPGatewayToken env (agent_id a) t = Inr None \<longrightarrow>
        a2a_execute env request =
          rpc_error (request_id (rpc_body request)) (- 32600) ''Invalid or unauthorized token'')
   \<and> (\<forall>p a t tokenAuth u. PromptModel_findById env (exec_promptId request) = Inr (Some p) \<and>
          AgentModel_findById env (agentId p) = Inr (Some a) \<and>
          exec_bearer request = Some t \<and> t \<noteq> [] \<and>
          validateMCPGatewayToken env (agent_id a) t = Inr (Some tokenAuth) \<and>
          auth_userId tokenAuth = Some u \<and> u \<noteq> [] \<and> UserModel_getById env u = Inr None \<longrightarrow>
        a2a_execute env request =
          rpc_error (request_id (rpc_body request)) (- 32600) ''User not found for token'')
   \<and> (\<forall>p a uid orgId. authenticated env request p a uid orgId \<longrightarrow>
        (userMessage_of (rpc_body request) = [] \<longrightarrow>
           a2a_execute env request =
             rpc_error (request_id (rpc_body request)) (- 32602) ''No message content provided'')
        \<and> (\<forall>e. userMessage_of (rpc_body request) \<noteq> [] \<and>
              run_execution env p a uid orgId (userMessage_of (rpc_body request)) = Inl e \<longrightarrow>
              a2a_execute env request =
                rpc_error (request_id (rpc_body request)) (- 32603)
                  (case e of ThrownError m \<Rightarrow> m | ThrownOther \<Rightarrow> ''Internal error''))
        \<and> (\<forall>finalText. userMessage_of (rpc_body request) \<noteq> [] \<and>
              run_execution env p a uid orgId (userMessage_of (rpc_body request)) = Inr finalText \<longrightarrow>
              a2a_execute env request =
                Reply 200
                  \<lparr>jsonrpc = ''2.0'', response_id = request_id (rpc_body request),
                   outcome = RpcResult
                     \<lparr>messageId = fresh_messageId env, role = ''agent'',
                      result_parts = [\<lparr>kind = ''text'', part_text = finalText\<rparr>]\<rparr>\<rparr>))"
proof (intro conjI allI impI)
  assume "lookups_return env"
  then show "\<exists>resp. a2a_execute env request = Reply 200 resp \<and> jsonrpc resp = ''2.0'' \<and>
         response_id resp = request_id (rpc_body request)"
    by (rule a2a_execute_always_200)
next
  assume "PromptModel_findById env (exec_promptId request) = Inr None"
  then show "a2a_execute env request =
          rpc_error (request_id (rpc_body request)) (- 32602) ''Prompt not found''"
    by (simp add: a2a_execute_def)
next
  fix p
  assume "PromptModel_findById env (exec_promptId request) = Inr (Some p) \<and>
          AgentModel_findById env (agentId p) = Inr None"
  then show "a2a_execute env request =
          rpc_error (request_id (rpc_body request)) (- 32602) ''Agent not found for prompt''"
    by (simp add: a2a_execute_def)
next
  fix p a
  assume "PromptModel_findById env (exec_promptId request) = Inr (Some p) \<and>
          AgentModel_findById env (agentId p) = Inr (Some a) \<and>
          \<not> truthy_string (exec_bearer request)"
  then show "a2a_execute env request =
          rpc_error (request_id (rpc_body request)) (- 32600)
            ''Authorization header required. Use: Bearer <archestra_token>''"
    by (simp add: a2a_execute_def)
next
  fix p a t
  assume "PromptModel_findById env (exec_promptId request) = Inr (Some p) \<and>
          AgentModel_findById env (agentId p) = Inr (Some a) \<and>
          exec_bearer request = Some t \<and> t \<noteq> [] \<and>
          validateMCPGatewayToken env (agent_id a) t = Inr None"
  then show "a2a_execute env request =
          rpc_error (request_id (rpc_body request)) (- 32600) ''Invalid or unauthorized token''"
    by (simp add: a2a_execute_def truthy_string_def)
next
  fix p a t tokenAuth u
  assume "PromptModel_findById env (exec_promptId request) = Inr (Some p) \<and>
          AgentModel_findById env (agentId p) = Inr (Some a) \<and>
          exec_bearer request = Some t \<and> t \<noteq> [] \<and>
          validateMCPGatewayToken env (agent_id a) t = Inr (Some tokenAuth) \<and>
          auth_userId tokenAuth = Some u \<and> u \<noteq> [] \<and> UserModel_getById env u = Inr None"
  then show "a2a_execute env request =
          rpc_error (request_id (rpc_body request)) (- 32600) ''User not found for token''"
    by (simp add: a2a_execute_def truthy_string_def)
next
  fix p a uid orgId
  assume auth: "authenticated env request p a uid orgId"
  assume "userMessage_of (rpc_body request) = []"
  then show "a2a_execute env request =
             rpc_error (request_id (rpc_body request)) (- 32602) ''No message content provided''"
    unfolding a2a_execute_authenticated [OF auth] by (simp add: after_auth_def)
next
  fix p a uid orgId e
  assume auth: "authenticated env request p a uid orgId"
  assume "userMessage_of (rpc_body request) \<noteq> [] \<and>
              run_execution env p a uid orgId (userMessage_of (rpc_body request)) = Inl e"
  then show "a2a_execute env request =
                rpc_error (request_id (rpc_body request)) (- 32603)
                  (case e of ThrownError m \<Rightarrow> m | ThrownOther \<Rightarrow> ''Internal error'')"
    unfolding a2a_execute_authenticated [OF auth] by (simp add: after_auth_def)
next
  fix p a uid orgId finalText
  assume auth: "authenticated env request p a uid orgId"
  assume "userMessage_of (rpc_body request) \<noteq> [] \<and>
              run_execution env p a uid orgId (userMessage_of (rpc_body request)) = Inr finalText"
  then show "a2a_execute env request =
                Reply 200
                  \<lparr>jsonrpc = ''2.0'', response_id = request_id (rpc_body request),
                   outcome = RpcResult
                     \<lparr>messageId = fresh_messageId env, role = ''agent'',
                      result_parts = [\<lparr>kind = ''text'', part_text = finalText\<rparr>]\<rparr>\<rparr>"
    unfolding a2a_execute_authenticated [OF auth] by (simp add: after_auth_def)
qed

lemma lookups_return_demo_env: "lookups_return demo_env"
  by (simp add: lookups_return_def demo_env_def)

lemma authenticated_demo:
  "authenticated demo_env (say (Some ''good-token'') texts) demo_prompt demo_agent ''system'' ''org-a''"
  by (simp add: authenticated_def demo_env_def say_def demo_prompt_def demo_agent_def
      truthy_string_def)

lemma run_execution_demo:
  "run_execution demo_env p a uid orgId m =
     (if m = ''fail'' then Inl (ThrownError ''provider down'') else Inr (''echo: '' @ m))"
  by (simp add: run_execution_def demo_env_def)

lemma userMessage_of_say:
  "userMessage_of (rpc_body (say bearer texts)) = join [CHR 0x0A] texts"
  by (simp add: userMessage_of_def say_def comp_def)

theorem a2a_execute_reply_codes_witness:
  "a2a_execute demo_env (say (Some ''good-token'') [''hello'']) =
     Reply 200 \<lparr>jsonrpc = ''2.0'', response_id = IdNumber 1,
       outcome = RpcResult \<lparr>messageId = ''msg-1'', role = ''agent'',
         result_parts = [\<lparr>kind = ''text'', part_text = ''echo: hello''\<rparr>]\<rparr>\<rparr>
   \<and> a2a_execute demo_env (say (Some ''good-token'') [''fail'']) =
       rpc_error (IdNumber 1) (- 32603) ''provider down''
   \<and> a2a_execute demo_env (say (Some ''good-token'') []) =
       rpc_error (IdNumber 1) (- 32602) ''No message content provided''
   \<and> a2a_execute demo_env (say (Some ''stale-token'') [''hello'']) =
       rpc_error (IdNumber 1) (- 32600) ''Invalid or unauthorized token''
   \<and> (\<exists>resp. a2a_execute demo_env (say None [''hello'']) = Reply 200 resp)"
proof -
  note T = a2a_execute_reply_codes [of demo_env]
  note A = T [THEN conjunct2, THEN conjunct2, THEN conjunct2, THEN conjunct2, THEN conjunct2,
      THEN conjunct2, rule_format, OF authenticated_demo]
  have i: "request_id (rpc_body (say b ts)) = IdNumber 1" for b ts
    by (simp add: say_def)
  have m: "fresh_messageId demo_env = ''msg-1''" by (simp add: demo_env_def)
  have a: "a2a_execute demo_env (say (Some ''good-token'') [''hello'']) =
     Reply 200 \<lparr>jsonrpc = ''2.0'', response_id = IdNumber 1,
       outcome = RpcResult \<lparr>messageId = ''msg-1'', role = ''agent'',
         result_parts = [\<lparr>kind = ''text'', part_text = ''echo: hello''\<rparr>]\<rparr>\<rparr>"
    using A [THEN conjunct2, THEN conjunct2, rule_format, of "[''hello'']" "''echo: hello''"]
    by (simp add: userMessage_of_say run_execution_demo i m)
  have b: "a2a_execute demo_env (say (Some ''good-token'') [''fail'']) =
       rpc_error (IdNumber 1) (- 32603) ''provider down''"
    using A [THEN conjunct2, THEN conjunct1, rule_format, of "[''fail'']" "ThrownError ''provider down''"]
    by (simp add: userMessage_of_say run_execution_demo i)
  have c: "a2a_execute demo_env (say (Some ''good-token'') []) =
       rpc_error (IdNumber 1) (- 32602) ''No message content provided''"
    using A [THEN conjunct1, of "[]"]
    by (simp add: userMessage_of_say i)
  have d: "a2a_execute demo_env (say (Some ''stale-token'') [''hello'']) =
       rpc_error (IdNumber 1) (- 32600) ''Invalid or unauthorized token''"
    using T [of "say (Some ''stale-token'') [''hello'']", THEN conjunct2, THEN conjunct2,
        THEN conjunct2, THEN conjunct2, THEN conjunct1, rule_format,
        of demo_prompt demo_agent "''stale-token''"]
    by (simp add: demo_env_def say_def demo_prompt_def demo_agent_def)
  have e: "\<exists>resp. a2a_execute demo_env (say None [''hello'']) = Reply 200 resp"
    using T [of "say None [''hello'']", THEN conjunct1] lookups_return_demo_env by blast
  show ?thesis using a b c d e by blast
qed

text \<open>
  The claim as stated fails in two ways. When a lookup made before the \<open>try\<close> block
  throws, here the prompt lookup during a database outage, the exception leaves the
  handler and no reply with status 200 and a JSON-RPC envelope is sent. And a request
  with an empty message text and no bearer token is answered with the code -32600 of the
  token check, which comes first, not with -32602.
\<close>

theorem a2a_execute_reply_codes_counterexample:
  "a2a_execute outage_env (say (Some ''good-token'') [''hello'']) =
     Unhandled (ThrownError ''Connection terminated unexpectedly'')
   \<and> userMessage_of (rpc_body (say None [])) = []
   \<and> a2a_execute demo_env (say None []) =
       Reply 200 \<lparr>jsonrpc = ''2.0'', response_id = IdNumber 1,
         outcome = RpcError (- 32600) ''Authorization header required. Use: Bearer <archestra_token>''\<rparr>"
  by (simp add: a2a_execute_def outage_env_def demo_env_def say_def userMessage_of_def
      demo_prompt_def demo_agent_def truthy_string_def rpc_error_def)

section \<open>Properties of the key rotation\<close>

lemma secret_id_rotated_row:
  "secret_id (rotated_row c old new iv row) = secret_id row"
  by (simp add: rotated_row_def split: sum.splits)

lemma length_rotate_rows: "length (rotate_rows c old new n rows) = length rows"
  by (induction rows arbitrary: n) simp_all

lemma rotate_rows_nth:
  "k < length rows \<Longrightarrow>
   rotate_rows c old new n rows ! k = rotated_row c old new (random_iv c (n + k)) (rows ! k)"
proof (induction rows arbitrary: n k)
  case Nil
  then show ?case by simp
next
  case (Cons row rows)
  then show ?case by (cases k) simp_all
qed

lemma not_decryptable_encrypted:
  assumes "\<not> decryptable c old row"
  shows "isEncryptedSecret c (secret row)"
proof (rule ccontr)
  assume "\<not> isEncryptedSecret c (secret row)"
  then have "decryptable c old row" by (simp add: decryptable_def plaintext_of_def)
  then show False using assms by simp
qed

lemma dry_run_loop_ok:
  assumes "\<forall>row\<in>set rows. decryptable c old row"
  shows "dry_run_loop c (deriveKeyFromSecret c old) rows re nw =
     Inr (re + length (filter (\<lambda>r. isEncryptedSecret c (secret r)) rows),
          nw + length (filter (\<lambda>r. \<not> isEncryptedSecret c (secret r)) rows))"
  using assms
proof (induction rows arbitrary: re nw)
  case Nil
  then show ?case by simp
next
  case (Cons row rows)
  then have d: "decryptable c old row" and rest: "\<forall>row\<in>set rows. decryptable c old row"
    by simp_all
  show ?case
  proof (cases "isEncryptedSecret c (secret row)")
    case True
    then obtain p where "decryptSecretValueWithKey c (secret row) (deriveKeyFromSecret c old) = Inr p"
      using d by (auto simp: decryptable_def plaintext_of_def)
    then show ?thesis using True Cons.IH [OF rest] by simp
  next
    case False
    then show ?thesis using Cons.IH [OF rest] by simp
  qed
qed

lemma dry_run_loop_fails:
  assumes "\<not> (\<forall>row\<in>set rows. decryptable c old row)"
  shows "\<exists>e. dry_run_loop c (deriveKeyFromSecret c old) rows re nw = Inl e"
  using assms
proof (induction rows arbitrary: re nw)
  case Nil
  then show ?case by simp
next
  case (Cons row rows)
  show ?case
  proof (cases "decryptable c old row")
    case True
    then have rest: "\<not> (\<forall>row\<in>set rows. decryptable c old row)" using Cons.prems by simp
    show ?thesis
    proof (cases "isEncryptedSecret c (secret row)")
      case enc: True
      then obtain p where "decryptSecretValueWithKey c (secret row) (deriveKeyFromSecret c old) = Inr p"
        using True by (auto simp: decryptable_def plaintext_of_def)
      then show ?thesis using enc Cons.IH [OF rest] by simp
    next
      case False
      then show ?thesis using Cons.IH [OF rest] by simp
    qed
  next
    case False
    then have enc: "isEncryptedSecret c (secret row)"
      by (rule not_decryptable_encrypted)
    then obtain e where "decryptSecretValueWithKey c (secret row) (deriveKeyFromSecret c old) = Inl e"
      using False
      by (cases "decryptSecretValueWithKey c (secret row) (deriveKeyFromSecret c old)")
        (auto simp: decryptable_def plaintext_of_def)
    then show ?thesis using enc by simp
  qed
qed

lemma update_one_row:
  assumes "distinct (map secret_id (pre @ row # rest))"
  shows "map (\<lambda>r. if secret_id r = secret_id row then r\<lparr>secret := v\<rparr> else r) (pre @ row # rest)
         = pre @ row\<lparr>secret := v\<rparr> # rest"
proof -
  have "secret_id row \<notin> secret_id ` set pre" using assms by simp
  then have "\<forall>r\<in>set pre. secret_id r \<noteq> secret_id row" by (metis imageI)
  then have a: "map (\<lambda>r. if secret_id r = secret_id row then r\<lparr>secret := v\<rparr> else r) pre = pre"
    by (induction pre) simp_all
  have "secret_id row \<notin> secret_id ` set rest" using assms by simp
  then have "\<forall>r\<in>set rest. secret_id r \<noteq> secret_id row" by (metis imageI)
  then have b: "map (\<lambda>r. if secret_id r = secret_id row then r\<lparr>secret := v\<rparr> else r) rest = rest"
    by (induction rest) simp_all
  show ?thesis using a b by simp
qed


lemma rotate_loop_ok:
  assumes "\<forall>row\<in>set rows. decryptable c old row"
    and "distinct (map secret_id (pre @ rows))"
    and "secretsTable tx = pre @ rows"
  shows "rotate_loop c (deriveKeyFromSecret c old) (deriveKeyFromSecret c new) rows n re nw tx =
     (Inr (re + length (filter (\<lambda>r. isEncryptedSecret c (secret r)) rows),
           nw + length (filter (\<lambda>r. \<not> isEncryptedSecret c (secret r)) rows)),
      tx\<lparr>secretsTable := pre @ rotate_rows c old new n rows,
         statements := statements tx @ map (\<lambda>r. Update (secret_id r)) rows\<rparr>)"
  using assms
proof (induction rows arbitrary: n re nw tx pre)
  case Nil
  then show ?case by simp
next
  case (Cons row rows)
  then have d: "decryptable c old row" and rest: "\<forall>row\<in>set rows. decryptable c old row"
    by simp_all
  obtain p where p: "plaintext_of c old row = Inr p" using d by (auto simp: decryptable_def)
  let ?v = "encryptSecretValueWithKey c p (deriveKeyFromSecret c new) (random_iv c n)"
  let ?row' = "row\<lparr>secret := ?v\<rparr>"
  have rr: "rotated_row c old new (random_iv c n) row = ?row'"
    using p by (simp add: rotated_row_def)
  let ?tx' = "update_secret (secret_id row) ?v tx"
  have tbl: "secretsTable ?tx' = (pre @ [?row']) @ rows"
    using update_one_row [OF Cons.prems(2), of ?v] Cons.prems(3)
    by (simp add: update_secret_def run_def)
  have dist: "distinct (map secret_id ((pre @ [?row']) @ rows))"
    using Cons.prems(2) by simp
  have st: "statements ?tx' = statements tx @ [Update (secret_id row)]"
    by (simp add: update_secret_def run_def)
  note IH = Cons.IH [OF rest dist tbl]
  show ?case
  proof (cases "isEncryptedSecret c (secret row)")
    case True
    then have "decryptSecretValueWithKey c (secret row) (deriveKeyFromSecret c old) = Inr p"
      using p by (simp add: plaintext_of_def)
    then show ?thesis using True IH [of "n + 1" "re + 1" nw] rr st
      by (simp add: update_secret_def run_def)
  next
    case False
    then have "p = secret row" using p by (simp add: plaintext_of_def)
    then show ?thesis using False IH [of "n + 1" re "nw + 1"] rr st
      by (simp add: update_secret_def run_def)
  qed
qed



lemma rotate_loop_fails:
  assumes "\<not> (\<forall>row\<in>set rows. decryptable c old row)"
  shows "\<exists>e tx' us. rotate_loop c (deriveKeyFromSecret c old) (deriveKeyFromSecret c new) rows n re nw tx
           = (Inl e, tx') \<and> statements tx' = statements tx @ map Update us"
  using assms
proof (induction rows arbitrary: n re nw tx)
  case Nil
  then show ?case by simp
next
  case (Cons row rows)
  show ?case
  proof (cases "decryptable c old row")
    case True
    then have rest: "\<not> (\<forall>row\<in>set rows. decryptable c old row)" using Cons.prems by simp
    obtain p where p: "plaintext_of c old row = Inr p" using True by (auto simp: decryptable_def)
    let ?v = "encryptSecretValueWithKey c p (deriveKeyFromSecret c new) (random_iv c n)"
    let ?tx' = "update_secret (secret_id row) ?v tx"
    have st: "statements ?tx' = statements tx @ [Update (secret_id row)]"
      by (simp add: update_secret_def run_def)
    have step: "rotate_loop c (deriveKeyFromSecret c old) (deriveKeyFromSecret c new) (row # rows) n re nw tx
        = rotate_loop c (deriveKeyFromSecret c old) (deriveKeyFromSecret c new) rows (n + 1)
            (if isEncryptedSecret c (secret row) then re + 1 else re)
            (if isEncryptedSecret c (secret row) then nw else nw + 1) ?tx'"
      using p by (auto simp: plaintext_of_def split: if_splits)
    obtain e tx' us where
      "rotate_loop c (deriveKeyFromSecret c old) (deriveKeyFromSecret c new) rows (n + 1)
            (if isEncryptedSecret c (secret row) then re + 1 else re)
            (if isEncryptedSecret c (secret row) then nw else nw + 1) ?tx' = (Inl e, tx')"
      "statements tx' = statements ?tx' @ map Update us"
      using Cons.IH [OF rest] by blast
    then have "rotate_loop c (deriveKeyFromSecret c old) (deriveKeyFromSecret c new) (row # rows) n re nw tx
        = (Inl e, tx') \<and> statements tx' = statements tx @ map Update (secret_id row # us)"
      using step st by simp
    then show ?thesis by blast
  next
    case False
    then have enc: "isEncryptedSecret c (secret row)"
      by (rule not_decryptable_encrypted)
    then obtain e where "decryptSecretValueWithKey c (secret row) (deriveKeyFromSecret c old) = Inl e"
      using False
      by (cases "decryptSecretValueWithKey c (secret row) (deriveKeyFromSecret c old)")
        (auto simp: decryptable_def plaintext_of_def)
    then have "rotate_loop c (deriveKeyFromSecret c old) (deriveKeyFromSecret c new) (row # rows) n re nw tx
        = (Inl e, tx) \<and> statements tx = statements tx @ map Update []"
      using enc by simp
    then show ?thesis by blast
  qed
qed

lemma rotated_row_decryptable:
  assumes "decryptable c old row"
  shows "\<exists>p. plaintext_of c old row = Inr p \<and>
     rotated_row c old new iv row =
       row\<lparr>secret := encryptSecretValueWithKey c p (deriveKeyFromSecret c new) iv\<rparr>"
  using assms by (auto simp: decryptable_def rotated_row_def)

lemma rotate_real_run_ok:
  assumes "old \<noteq> new" and "distinct (map secret_id (secretsTable db))"
    and "\<forall>row\<in>set (secretsTable db). decryptable c old row"
  shows "rotateSecretEncryptionKey c old new False db =
     (Inr \<lparr>total = length (secretsTable db),
           reEncrypted = length (filter (\<lambda>r. isEncryptedSecret c (secret r)) (secretsTable db)),
           newlyEncrypted = length (filter (\<lambda>r. \<not> isEncryptedSecret c (secret r)) (secretsTable db))\<rparr>,
      db\<lparr>secretsTable := rotate_rows c old new 0 (secretsTable db),
         statements := statements db @ [Select, Begin] @
           map (\<lambda>r. Update (secret_id r)) (secretsTable db) @ [Commit]\<rparr>)"
proof -
  let ?tx = "run Begin (run Select db)"
  let ?re = "length (filter (\<lambda>r. isEncryptedSecret c (secret r)) (secretsTable db))"
  let ?nw = "length (filter (\<lambda>r. \<not> isEncryptedSecret c (secret r)) (secretsTable db))"
  let ?tx' = "?tx\<lparr>secretsTable := rotate_rows c old new 0 (secretsTable db),
                 statements := statements ?tx @ map (\<lambda>r. Update (secret_id r)) (secretsTable db)\<rparr>"
  have tbl: "secretsTable ?tx = [] @ secretsTable db" by (simp add: run_def)
  have dist: "distinct (map secret_id ([] @ secretsTable db))" using assms(2) by simp
  have l: "rotate_loop c (deriveKeyFromSecret c old) (deriveKeyFromSecret c new) (secretsTable db) 0 0 0 ?tx
           = (Inr (?re, ?nw), ?tx')"
    using rotate_loop_ok [OF assms(3) dist tbl, of new 0 0 0] by simp
  have t: "transaction (rotate_loop c (deriveKeyFromSecret c old) (deriveKeyFromSecret c new)
              (secretsTable db) 0 0 0) (run Select db) = (Inr (?re, ?nw), run Commit ?tx')"
    by (simp add: transaction_def l)
  have fin: "run Commit ?tx' =
      db\<lparr>secretsTable := rotate_rows c old new 0 (secretsTable db),
         statements := statements db @ [Select, Begin] @
           map (\<lambda>r. Update (secret_id r)) (secretsTable db) @ [Commit]\<rparr>"
    by (simp add: run_def)
  show ?thesis
    using assms(1) by (simp add: rotateSecretEncryptionKey_def Let_def t fin)
qed

lemma rotate_real_run_fails:
  assumes "old \<noteq> new" and "\<not> (\<forall>row\<in>set (secretsTable db). decryptable c old row)"
  shows "\<exists>e us. rotateSecretEncryptionKey c old new False db =
     (Inl e, db\<lparr>statements := statements db @ [Select, Begin] @ map Update us @ [Rollback]\<rparr>)"
proof -
  let ?tx = "run Begin (run Select db)"
  obtain e tx' us where
    l: "rotate_loop c (deriveKeyFromSecret c old) (deriveKeyFromSecret c new) (secretsTable db) 0 0 0 ?tx
          = (Inl e, tx')"
    and s: "statements tx' = statements ?tx @ map Update us"
    using rotate_loop_fails [OF assms(2), of new 0 0 0 ?tx] by blast
  have t: "transaction (rotate_loop c (deriveKeyFromSecret c old) (deriveKeyFromSecret c new)
              (secretsTable db) 0 0 0) (run Select db)
           = (Inl e, run Rollback (tx'\<lparr>secretsTable := secretsTable (run Select db)\<rparr>))"
    by (simp add: transaction_def l)
  have fin: "run Rollback (tx'\<lparr>secretsTable := secretsTable (run Select db)\<rparr>) =
      db\<lparr>statements := statements db @ [Select, Begin] @ map Update us @ [Rollback]\<rparr>"
    using s by (simp add: run_def)
  have "rotateSecretEncryptionKey c old new False db =
     (Inl e, db\<lparr>statements := statements db @ [Select, Begin] @ map Update us @ [Rollback]\<rparr>)"
    using assms(1) by (simp add: rotateSecretEncryptionKey_def Let_def t fin)
  then show ?thesis by blast
qed

lemma rotate_dry_run:
  assumes "old \<noteq> new"
  shows "rotateSecretEncryptionKey c old new True db =
     (case dry_run_loop c (deriveKeyFromSecret c old) (secretsTable db) 0 0 of
        Inl e \<Rightarrow> Inl e
      | Inr (re, nw) \<Rightarrow> Inr \<lparr>total = length (secretsTable db), reEncrypted = re, newlyEncrypted = nw\<rparr>,
      db\<lparr>statements := statements db @ [Select]\<rparr>)"
  using assms
  by (simp add: rotateSecretEncryptionKey_def Let_def run_def split: sum.splits prod.splits)

text \<open>
  Claim C1. Called with the old secret equal to the new one, the script throws at once:
  the database, log of statements included, is as it was, so no row was read or
  written. A dry run issues the one \<open>SELECT\<close> and leaves every row as it was; when every
  encrypted row decrypts under the old key it returns the counts, otherwise it throws the
  error of the decryption. A real run puts all updates between one \<open>BEGIN\<close> and one
  \<open>COMMIT\<close> or \<open>ROLLBACK\<close>: when every encrypted row decrypts under the old key (the
  ids of the rows being distinct), it returns the counts and each row holds its plaintext
  encrypted under the new key; otherwise it throws and the table is as it was.
\<close>

theorem rotateSecretEncryptionKey_all_or_nothing:
  "(\<forall>dryRun. rotateSecretEncryptionKey c oldSecret oldSecret dryRun db = (Inl IDENTICAL_SECRETS, db))
   \<and> (oldSecret \<noteq> newSecret \<longrightarrow>
        snd (rotateSecretEncryptionKey c oldSecret newSecret True db)
          = db\<lparr>statements := statements db @ [Select]\<rparr>
        \<and> ((\<forall>row\<in>set (secretsTable db). decryptable c oldSecret row) \<longrightarrow>
             fst (rotateSecretEncryptionKey c oldSecret newSecret True db) =
               Inr \<lparr>total = length (secretsTable db),
                    reEncrypted = length (filter (\<lambda>r. isEncryptedSecret c (secret r)) (secretsTable db)),
                    newlyEncrypted =
                      length (filter (\<lambda>r. \<not> isEncryptedSecret c (secret r)) (secretsTable db))\<rparr>)
        \<and> (\<not> (\<forall>row\<in>set (secretsTable db). decryptable c oldSecret row) \<longrightarrow>
             (\<exists>e. fst (rotateSecretEncryptionKey c oldSecret newSecret True db) = Inl e)))
   \<and> (oldSecret \<noteq> newSecret \<and> distinct (map secret_id (secretsTable db)) \<and>
        (\<forall>row\<in>set (secretsTable db). decryptable c oldSecret row) \<longrightarrow>
        fst (rotateSecretEncryptionKey c oldSecret newSecret False db) =
          Inr \<lparr>total = length (secretsTable db),
               reEncrypted = length (filter (\<lambda>r. isEncryptedSecret c (secret r)) (secretsTable db)),
               newlyEncrypted =
                 length (filter (\<lambda>r. \<not> isEncryptedSecret c (secret r)) (secretsTable db))\<rparr>
        \<and> length (secretsTable (snd (rotateSecretEncryptionKey c oldSecret newSecret False db)))
            = length (secretsTable db)
        \<and> (\<forall>k<length (secretsTable db). \<exists>p.
              plaintext_of c oldSecret (secretsTable db ! k) = Inr p \<and>
              secretsTable (snd (rotateSecretEncryptionKey c oldSecret newSecret False db)) ! k =
                (secretsTable db ! k)
                  \<lparr>secret := encryptSecretValueWithKey c p (deriveKeyFromSecret c newSecret) (random_iv c k)\<rparr>)
        \<and> statements (snd (rotateSecretEncryptionKey c oldSecret newSecret False db)) =
            statements db @ [Select, Begin] @
              map (\<lambda>r. Update (secret_id r)) (secretsTable db) @ [Commit])
   \<and> (oldSecret \<noteq> newSecret \<and> \<not> (\<forall>row\<in>set (secretsTable db). decryptable c oldSecret row) \<longrightarrow>
        (\<exists>e. fst (rotateSecretEncryptionKey c oldSecret newSecret False db) = Inl e)
        \<and> secretsTable (snd (rotateSecretEncryptionKey c oldSecret newSecret False db)) = secretsTable db
        \<and> (\<exists>us. statements (snd (rotateSecretEncryptionKey c oldSecret newSecret False db)) =
              statements db @ [Select, Begin] @ map Update us @ [Rollback]))"
proof (intro conjI allI impI)
  fix dryRun
  show "rotateSecretEncryptionKey c oldSecret oldSecret dryRun db = (Inl IDENTICAL_SECRETS, db)"
    by (simp add: rotateSecretEncryptionKey_def)
next
  assume "oldSecret \<noteq> newSecret"
  then show "snd (rotateSecretEncryptionKey c oldSecret newSecret True db)
          = db\<lparr>statements := statements db @ [Select]\<rparr>"
    by (simp add: rotate_dry_run)
next
  assume ne: "oldSecret \<noteq> newSecret"
    and ok: "\<forall>row\<in>set (secretsTable db). decryptable c oldSecret row"
  show "fst (rotateSecretEncryptionKey c oldSecret newSecret True db) =
               Inr \<lparr>total = length (secretsTable db),
                    reEncrypted = length (filter (\<lambda>r. isEncryptedSecret c (secret r)) (secretsTable db)),
                    newlyEncrypted =
                      length (filter (\<lambda>r. \<not> isEncryptedSecret c (secret r)) (secretsTable db))\<rparr>"
    by (simp add: rotate_dry_run [OF ne] dry_run_loop_ok [OF ok])
next
  assume ne: "oldSecret \<noteq> newSecret"
    and bad: "\<not> (\<forall>row\<in>set (secretsTable db). decryptable c oldSecret row)"
  obtain e where "dry_run_loop c (deriveKeyFromSecret c oldSecret) (secretsTable db) 0 0 = Inl e"
    using dry_run_loop_fails [OF bad] by blast
  then show "\<exists>e. fst (rotateSecretEncryptionKey c oldSecret newSecret True db) = Inl e"
    by (simp add: rotate_dry_run [OF ne])
next
  assume a: "oldSecret \<noteq> newSecret \<and> distinct (map secret_id (secretsTable db)) \<and>
        (\<forall>row\<in>set (secretsTable db). decryptable c oldSecret row)"
  then have ne: "oldSecret \<noteq> newSecret" and di: "distinct (map secret_id (secretsTable db))"
    and ok: "\<forall>row\<in>set (secretsTable db). decryptable c oldSecret row" by simp_all
  note R = rotate_real_run_ok [OF ne di ok]
  show "fst (rotateSecretEncryptionKey c oldSecret newSecret False db) =
          Inr \<lparr>total = length (secretsTable db),
               reEncrypted = length (filter (\<lambda>r. isEncryptedSecret c (secret r)) (secretsTable db)),
               newlyEncrypted =
                 length (filter (\<lambda>r. \<not> isEncryptedSecret c (secret r)) (secretsTable db))\<rparr>"
    by (simp add: R)
  show "length (secretsTable (snd (rotateSecretEncryptionKey c oldSecret newSecret False db)))
            = length (secretsTable db)"
    by (simp add: R length_rotate_rows)
  show "statements (snd (rotateSecretEncryptionKey c oldSecret newSecret False db)) =
            statements db @ [Select, Begin] @
              map (\<lambda>r. Update (secret_id r)) (secretsTable db) @ [Commit]"
    by (simp add: R)
  fix k
  assume k: "k < length (secretsTable db)"
  then have "decryptable c oldSecret (secretsTable db ! k)" using ok by simp
  from rotated_row_decryptable [OF this, of newSecret "random_iv c k"]
  obtain p where p: "plaintext_of c oldSecret (secretsTable db ! k) = Inr p"
    and r: "rotated_row c oldSecret newSecret (random_iv c k) (secretsTable db ! k) =
       (secretsTable db ! k)
         \<lparr>secret := encryptSecretValueWithKey c p (deriveKeyFromSecret c newSecret) (random_iv c k)\<rparr>"
    by blast
  have "secretsTable (snd (rotateSecretEncryptionKey c oldSecret newSecret False db)) ! k =
      rotated_row c oldSecret newSecret (random_iv c k) (secretsTable db ! k)"
    using rotate_rows_nth [OF k, of c oldSecret newSecret 0] by (simp add: R)
  then show "\<exists>p. plaintext_of c oldSecret (secretsTable db ! k) = Inr p \<and>
              secretsTable (snd (rotateSecretEncryptionKey c oldSecret newSecret False db)) ! k =
                (secretsTable db ! k)
                  \<lparr>secret := encryptSecretValueWithKey c p (deriveKeyFromSecret c newSecret) (random_iv c k)\<rparr>"
    using p r by simp
next
  assume a: "oldSecret \<noteq> newSecret \<and> \<not> (\<forall>row\<in>set (secretsTable db). decryptable c oldSecret row)"
  then obtain e us where
    R: "rotateSecretEncryptionKey c oldSecret newSecret False db =
     (Inl e, db\<lparr>statements := statements db @ [Select, Begin] @ map Update us @ [Rollback]\<rparr>)"
    using rotate_real_run_fails [of oldSecret newSecret db c] by blast
  show "\<exists>e. fst (rotateSecretEncryptionKey c oldSecret newSecret False db) = Inl e"
    by (simp add: R)
  show "secretsTable (snd (rotateSecretEncryptionKey c oldSecret newSecret False db)) = secretsTable db"
    by (simp add: R)
  show "\<exists>us. statements (snd (rotateSecretEncryptionKey c oldSecret newSecret False db)) =
              statements db @ [Select, Begin] @ map Update us @ [Rollback]"
    unfolding R by (intro exI [of _ us]) simp
qed

lemma toy_db_decryptable: "\<forall>row\<in>set (secretsTable toy_db). decryptable toy_crypto ''old'' row"
  by (simp add: toy_db_def decryptable_def plaintext_of_def toy_crypto_def)

lemma broken_db_not_decryptable:
  "\<not> (\<forall>row\<in>set (secretsTable broken_db). decryptable toy_crypto ''old'' row)"
  by (simp add: broken_db_def decryptable_def plaintext_of_def toy_crypto_def)

theorem rotateSecretEncryptionKey_all_or_nothing_witness:
  "rotateSecretEncryptionKey toy_crypto ''old'' ''old'' False toy_db = (Inl IDENTICAL_SECRETS, toy_db)
   \<and> rotateSecretEncryptionKey toy_crypto ''old'' ''new'' True toy_db =
       (Inr \<lparr>total = 2, reEncrypted = 1, newlyEncrypted = 1\<rparr>, toy_db\<lparr>statements := [Select]\<rparr>)
   \<and> rotateSecretEncryptionKey toy_crypto ''old'' ''new'' False toy_db =
       (Inr \<lparr>total = 2, reEncrypted = 1, newlyEncrypted = 1\<rparr>,
        \<lparr>secretsTable =
           [\<lparr>secret_id = ''s1'', secret_name = ''api'', secret = Cipher ''new'' 100 ''sk-123''\<rparr>,
            \<lparr>secret_id = ''s2'', secret_name = ''legacy'', secret = Cipher ''new'' 101 ''token''\<rparr>],
         statements = [Select, Begin, Update ''s1'', Update ''s2'', Commit]\<rparr>)
   \<and> rotateSecretEncryptionKey toy_crypto ''old'' ''new'' False broken_db =
       (Inl (ThrownError ''Unsupported state or unable to authenticate data''),
        broken_db\<lparr>statements := [Select, Begin, Update ''s1'', Rollback]\<rparr>)"
proof -
  note T = rotateSecretEncryptionKey_all_or_nothing [of toy_crypto "''old''" _ "''new''"]
  have ne: "''old'' \<noteq> ''new''" by simp
  have di: "distinct (map secret_id (secretsTable toy_db))" by (simp add: toy_db_def)
  have a: "rotateSecretEncryptionKey toy_crypto ''old'' ''old'' False toy_db = (Inl IDENTICAL_SECRETS, toy_db)"
    using T [of toy_db, THEN conjunct1] by blast
  have b: "rotateSecretEncryptionKey toy_crypto ''old'' ''new'' True toy_db =
       (Inr \<lparr>total = 2, reEncrypted = 1, newlyEncrypted = 1\<rparr>, toy_db\<lparr>statements := [Select]\<rparr>)"
    by (simp add: rotateSecretEncryptionKey_def Let_def run_def toy_db_def toy_crypto_def)
  have log: "statements (snd (rotateSecretEncryptionKey toy_crypto ''old'' ''new'' False toy_db)) =
      statements toy_db @ [Select, Begin] @ map (\<lambda>r. Update (secret_id r)) (secretsTable toy_db) @ [Commit]"
    using T [of toy_db, THEN conjunct2, THEN conjunct2, THEN conjunct1] ne di toy_db_decryptable
    by blast
  have c0: "rotateSecretEncryptionKey toy_crypto ''old'' ''new'' False toy_db =
       (Inr \<lparr>total = 2, reEncrypted = 1, newlyEncrypted = 1\<rparr>,
        \<lparr>secretsTable =
           [\<lparr>secret_id = ''s1'', secret_name = ''api'', secret = Cipher ''new'' 100 ''sk-123''\<rparr>,
            \<lparr>secret_id = ''s2'', secret_name = ''legacy'', secret = Cipher ''new'' 101 ''token''\<rparr>],
         statements = [Select, Begin, Update ''s1'', Update ''s2'', Commit]\<rparr>)"
    by (simp add: rotateSecretEncryptionKey_def transaction_def Let_def run_def update_secret_def
        toy_db_def toy_crypto_def)
  have c: "rotateSecretEncryptionKey toy_crypto ''old'' ''new'' False toy_db =
       (Inr \<lparr>total = 2, reEncrypted = 1, newlyEncrypted = 1\<rparr>,
        \<lparr>secretsTable =
           [\<lparr>secret_id = ''s1'', secret_name = ''api'', secret = Cipher ''new'' 100 ''sk-123''\<rparr>,
            \<lparr>secret_id = ''s2'', secret_name = ''legacy'', secret = Cipher ''new'' 101 ''token''\<rparr>],
         statements = [Select, Begin, Update ''s1'', Update ''s2'', Commit]\<rparr>)"
    using c0 log by simp
  have unchanged: "secretsTable (snd (rotateSecretEncryptionKey toy_crypto ''old'' ''new'' False broken_db))
      = secretsTable broken_db"
    using T [of broken_db, THEN conjunct2, THEN conjunct2, THEN conjunct2] ne broken_db_not_decryptable
    by blast
  have d0: "rotateSecretEncryptionKey toy_crypto ''old'' ''new'' False broken_db =
       (Inl (ThrownError ''Unsupported state or unable to authenticate data''),
        broken_db\<lparr>statements := [Select, Begin, Update ''s1'', Rollback]\<rparr>)"
    by (simp add: rotateSecretEncryptionKey_def transaction_def Let_def run_def update_secret_def
        broken_db_def toy_crypto_def)
  have d: "rotateSecretEncryptionKey toy_crypto ''old'' ''new'' False broken_db =
       (Inl (ThrownError ''Unsupported state or unable to authenticate data''),
        broken_db\<lparr>statements := [Select, Begin, Update ''s1'', Rollback]\<rparr>)"
    using d0 unchanged by simp
  show ?thesis using a b c d by blast
qed

section \<open>Properties of the envelope encryption\<close>

lemma split_on_no_separator: "c \<notin> set a \<Longrightarrow> split_on c a = [a]"
  by (induction a) auto

lemma split_on_append:
  "c \<notin> set a \<Longrightarrow> split_on c (a @ c # rest) = a # split_on c rest"
proof (induction a)
  case Nil
  then show ?case by simp
next
  case (Cons x a)
  then show ?case by auto
qed

lemma split_envelope:
  assumes "c \<notin> set v" "c \<notin> set a" "c \<notin> set b" "c \<notin> set d"
  shows "split_on c (v @ c # a @ c # b @ c # d) = [v, a, b, d]"
  using assms by (simp add: split_on_append split_on_no_separator)

lemma first_field_determined:
  fixes c :: char
  assumes "c \<notin> set a" "c \<notin> set a'" "a @ c # r = a' @ c # r'"
  shows "a = a'"
proof -
  have "split_on c (a @ c # r) = split_on c (a' @ c # r')" using assms(3) by simp
  then show ?thesis using assms(1,2) by (simp add: split_on_append)
qed

lemma decrypt_encrypt_with_key:
  assumes "json_serializable prims P" "cipher_correct prims" "base64url_correct prims"
  shows "decryptSecretValueWithKey_spec prims (encryptSecretValueWithKey_spec prims P key iv) key = Inr P"
proof -
  obtain ct tag where e: "cipher_encrypt prims key iv (json_stringify prims P) = (ct, tag)"
    by (cases "cipher_encrypt prims key iv (json_stringify prims P)") auto
  have d: "cipher_decrypt prims key iv tag ct = Some (json_stringify prims P)"
    using assms(2) e unfolding cipher_correct_def by blast
  have nc: "CHR '':'' \<notin> set (base64url_encode prims b)"
    and rt: "base64url_decode prims (base64url_encode prims b) = b" for b
    using assms(3) unfolding base64url_correct_def by simp_all
  have v: "CHR '':'' \<notin> set ''v1''" by simp
  have s: "encryptSecretValueWithKey_spec prims P key iv =
      ''v1'' @ CHR '':'' # base64url_encode prims iv @ CHR '':'' # base64url_encode prims tag @
      CHR '':'' # base64url_encode prims ct"
    by (simp add: encryptSecretValueWithKey_spec_def e)
  have sp: "split_on (CHR '':'') (encryptSecretValueWithKey_spec prims P key iv) =
      [''v1'', base64url_encode prims iv, base64url_encode prims tag, base64url_encode prims ct]"
    unfolding s by (rule split_envelope [OF v nc nc nc])
  show ?thesis
    using assms(1) d
    by (simp add: decryptSecretValueWithKey_spec_def sp rt json_serializable_def)
qed

lemma encrypt_with_key_iv_distinct:
  assumes "base64url_correct prims" "iv1 \<noteq> iv2"
  shows "encryptSecretValueWithKey_spec prims P key iv1 \<noteq> encryptSecretValueWithKey_spec prims P key iv2"
proof
  assume eq: "encryptSecretValueWithKey_spec prims P key iv1 = encryptSecretValueWithKey_spec prims P key iv2"
  obtain ct1 tag1 where e1: "cipher_encrypt prims key iv1 (json_stringify prims P) = (ct1, tag1)"
    by (cases "cipher_encrypt prims key iv1 (json_stringify prims P)") auto
  obtain ct2 tag2 where e2: "cipher_encrypt prims key iv2 (json_stringify prims P) = (ct2, tag2)"
    by (cases "cipher_encrypt prims key iv2 (json_stringify prims P)") auto
  have nc: "CHR '':'' \<notin> set (base64url_encode prims b)"
    and rt: "base64url_decode prims (base64url_encode prims b) = b" for b
    using assms(1) unfolding base64url_correct_def by simp_all
  have "base64url_encode prims iv1 @ CHR '':'' # (base64url_encode prims tag1 @ '':'' @ base64url_encode prims ct1)
      = base64url_encode prims iv2 @ CHR '':'' # (base64url_encode prims tag2 @ '':'' @ base64url_encode prims ct2)"
    using eq by (simp add: encryptSecretValueWithKey_spec_def e1 e2)
  then have "base64url_encode prims iv1 = base64url_encode prims iv2"
    by (rule first_field_determined [OF nc nc])
  then have "base64url_decode prims (base64url_encode prims iv1) =
             base64url_decode prims (base64url_encode prims iv2)" by simp
  then have "iv1 = iv2" by (simp add: rt)
  then show False using assms(2) by simp
qed

text \<open>
  Claim C2, on the model of the crypto module made from the specification. With the
  application secret set, a cipher that decrypts what it encrypts and a base64url coding
  that decodes what it encodes, every JSON-serializable object \<open>P\<close> is returned by
  \<open>decryptSecretValue(encryptSecretValue(P))\<close>, whatever vector the call draws; and two
  calls for the same \<open>P\<close> that draw different vectors give different \<open>__encrypted\<close>
  strings.
\<close>

theorem encrypt_decrypt_round_trip:
  assumes "auth_secret = Some s"
    and "json_serializable prims P"
    and "cipher_correct prims"
    and "base64url_correct prims"
  shows "(\<forall>iv. \<exists>w. encryptSecretValue prims auth_secret P iv = Inr w \<and>
             decryptSecretValue prims auth_secret w = Inr P)
     \<and> (\<forall>iv1 iv2 w1 w2. iv1 \<noteq> iv2 \<and> encryptSecretValue prims auth_secret P iv1 = Inr w1 \<and>
             encryptSecretValue prims auth_secret P iv2 = Inr w2 \<longrightarrow> w1 \<noteq> w2)"
proof (intro conjI allI impI)
  fix iv
  show "\<exists>w. encryptSecretValue prims auth_secret P iv = Inr w \<and>
             decryptSecretValue prims auth_secret w = Inr P"
    using assms(1) decrypt_encrypt_with_key [OF assms(2,3,4)]
    by (simp add: encryptSecretValue_def decryptSecretValue_def)
next
  fix iv1 iv2 w1 w2
  assume "iv1 \<noteq> iv2 \<and> encryptSecretValue prims auth_secret P iv1 = Inr w1 \<and>
             encryptSecretValue prims auth_secret P iv2 = Inr w2"
  then show "w1 \<noteq> w2"
    using assms(1) encrypt_with_key_iv_distinct [OF assms(4), of iv1 iv2 P "derive_key prims s"]
    by (auto simp: encryptSecretValue_def)
qed

lemma toy_primitives_correct:
  "json_serializable toy_primitives P" "cipher_correct toy_primitives"
  "base64url_correct toy_primitives"
proof -
  show "json_serializable toy_primitives P"
    by (simp add: json_serializable_def toy_primitives_def)
  show "cipher_correct toy_primitives"
    by (auto simp: cipher_correct_def toy_primitives_def comp_def)
  have a: "map (\<lambda>c. c = CHR ''1'') (map (\<lambda>b. if b then CHR ''1'' else CHR ''0'') b) = b" for b
    by (induction b) simp_all
  have b: "CHR '':'' \<notin> set (map (\<lambda>b. if b then CHR ''1'' else CHR ''0'') b)" for b
    by (induction b) simp_all
  show "base64url_correct toy_primitives"
    using a b by (simp add: base64url_correct_def toy_primitives_def)
qed

theorem encrypt_decrypt_round_trip_witness:
  "encryptSecretValue toy_primitives (Some ''101'') [True, False] [False, True] = Inr ''v1:01:10101:01''
   \<and> decryptSecretValue toy_primitives (Some ''101'') ''v1:01:10101:01'' = Inr [True, False]
   \<and> encryptSecretValue toy_primitives (Some ''101'') [True, False] [True, True] \<noteq> Inr ''v1:01:10101:01''"
proof -
  note T = encrypt_decrypt_round_trip [OF refl toy_primitives_correct, of "''101''" "[True, False]"]
  have e: "encryptSecretValue toy_primitives (Some ''101'') [True, False] [False, True] = Inr ''v1:01:10101:01''"
    by (simp add: encryptSecretValue_def encryptSecretValueWithKey_spec_def toy_primitives_def)
  obtain w where w: "encryptSecretValue toy_primitives (Some ''101'') [True, False] [False, True] = Inr w"
    "decryptSecretValue toy_primitives (Some ''101'') w = Inr [True, False]"
    using T [THEN conjunct1] by blast
  have d: "decryptSecretValue toy_primitives (Some ''101'') ''v1:01:10101:01'' = Inr [True, False]"
    using e w by simp
  have n: "encryptSecretValue toy_primitives (Some ''101'') [True, False] [True, True] \<noteq> Inr ''v1:01:10101:01''"
    by (simp add: encryptSecretValue_def encryptSecretValueWithKey_spec_def toy_primitives_def)
  show ?thesis using e d n by blast
qed

end
